theory Spec2Isabelle
  imports Main
begin

section \<open>Values of the host platform and of the wrapping layer\<close>

text \<open>
  The classes of the underlying database API that the source tests with
  \<^verbatim>\<open>instanceof\<close>.
\<close>

datatype kind = IDBDatabase | IDBCursor | IDBTransaction | IDBObjectStore | IDBIndex | IDBRequest

text \<open>Property keys: strings and symbols (\<^verbatim>\<open>Symbol.asyncIterator\<close> among them).\<close>

datatype pkey = Name string | AsyncIterator | Sym nat

text \<open>The two proxy handlers of the source.\<close>

datatype traps = IdbProxyTraps | CursorIteratorTraps

text \<open>
  Values. Every object carries the number it was allocated under, so that two values are
  equal exactly when they are the same object (reference identity). A proxy and a closure
  never change after their creation, so they carry their target and their captured
  variables; what an object can change (the settled state of a promise, the properties and
  listeners of a host object) lives in the state. The functions are the closures the source
  creates, the native methods of the host, and the module-level function \<^verbatim>\<open>iterate\<close>.
  The numbers are the integers and \<^verbatim>\<open>NaN\<close>, the one value that is not strictly equal to
  itself.
\<close>

datatype val =
    Undefined
  | Null
  | JBool bool
  | JNum int
  | JNaN
  | JStr string
  | StrList "string list"
  | TypeError
  | DOMException string string
  | Host kind nat
  | Promise nat
  | Proxy nat traps val
  | Fn nat func
and func =
    Native kind string
  | WrappedFn val
  | WrappedCursorFn val
  | Iterate
  | AdvanceStub string
  | Shorthand string bool bool
  | ReqSuccess nat val
  | ReqError nat val
  | TxComplete nat val
  | TxError nat val

datatype pstate = Pending | Fulfilled val | Rejected val | Adopted val

text \<open>
  What the host keeps inside an object, out of reach of the scripts: the stores of a
  database with their records and indexes, the scope of a transaction and the store
  objects it has handed out, the records a cursor has still to visit.
\<close>

datatype hdata =
    NoData
  | DbData "(string \<times> val list \<times> (string \<times> val list) list) list"
  | TxnData nat "string list" "(string \<times> val) list"
  | StoreData "val list" "(string \<times> val list) list" "(string \<times> val) list"
  | IndexData "val list"
  | CursorData val "val list"

record hobj =
  hprops :: "(pkey \<times> val) list"
  hlisteners :: "(string \<times> val) list"
  hdata :: hdata

text \<open>
  An event the host will deliver: the target, the event type, and the properties the host
  sets before it calls the listeners (the result or the error of a request, the record
  under a cursor).
\<close>

type_synonym event = "val \<times> string \<times> (nat \<times> pkey \<times> val) list"

text \<open>
  The state: the module-level caches of the source, the allocation counter, the promises,
  and the host objects with the members of their prototypes (which differ between
  browsers, as the source notes).
\<close>

record state =
  nextId :: nat
  transformCache :: "val \<rightharpoonup> val"
  reverseTransformCache :: "val \<rightharpoonup> val"
  idbProxyableTypes :: "kind list"
  cachedMethods :: "string \<rightharpoonup> val"
  advanceResults :: "val \<rightharpoonup> val"
  cursorFunctions :: "val set"
  transactionDoneMap :: "val \<rightharpoonup> val"
  proxiedCursorLookup :: "val \<rightharpoonup> val"
  promises :: "nat \<Rightarrow> pstate"
  handled :: "nat set"
  hobjs :: "nat \<Rightarrow> hobj"
  protoMembers :: "kind \<Rightarrow> string list"
  hqueue :: "event list"

datatype 'a outcome = Return 'a state | Throw val state | Stuck

definition bind :: "'a outcome \<Rightarrow> ('a \<Rightarrow> state \<Rightarrow> 'b outcome) \<Rightarrow> 'b outcome" where
  "bind m f = (case m of Return a s \<Rightarrow> f a s | Throw e s \<Rightarrow> Throw e s | Stuck \<Rightarrow> Stuck)"


lemma bind_simps [simp]:
  "bind (Return a s) f = f a s"
  "bind (Throw e s) f = Throw e s"
  "bind Stuck f = Stuck"
  by (simp_all add: bind_def)

section \<open>The runtime: type tests, truthiness, weak collections, promises\<close>

text \<open>
  \<^verbatim>\<open>v instanceof C\<close> walks the prototype chain of \<^verbatim>\<open>v\<close>. Neither handler of the source has a
  \<^verbatim>\<open>getPrototypeOf\<close> trap, so a proxy answers with the prototype chain of its target.
\<close>

fun instanceof :: "val \<Rightarrow> kind \<Rightarrow> bool" where
  "instanceof (Host k i) c = (k = c)"
| "instanceof (Proxy i h t) c = instanceof t c"
| "instanceof v c = False"

text \<open>\<^verbatim>\<open>typeof v === 'function'\<close>: a function, or a proxy of one.\<close>

fun isFunction :: "val \<Rightarrow> bool" where
  "isFunction (Fn i f) = True"
| "isFunction (Proxy i h t) = isFunction t"
| "isFunction v = False"

fun isObject :: "val \<Rightarrow> bool" where
  "isObject Undefined = False"
| "isObject Null = False"
| "isObject (JBool b) = False"
| "isObject (JNum n) = False"
| "isObject JNaN = False"
| "isObject (JStr x) = False"
| "isObject v = True"

fun truthy :: "val \<Rightarrow> bool" where
  "truthy Undefined = False"
| "truthy Null = False"
| "truthy (JBool b) = b"
| "truthy (JNum n) = (n \<noteq> 0)"
| "truthy JNaN = False"
| "truthy (JStr x) = (x \<noteq> [])"
| "truthy v = True"

text \<open>\<^verbatim>\<open>a !== b\<close>: two values differ, or both are \<^verbatim>\<open>NaN\<close>.\<close>

definition strict_neq :: "val \<Rightarrow> val \<Rightarrow> bool" where
  "strict_neq a b = (a \<noteq> b \<or> a = JNaN)"

text \<open>
  \<^verbatim>\<open>WeakMap.get\<close> and \<^verbatim>\<open>WeakMap.has\<close>: a key that is not an object is never found.
  \<^verbatim>\<open>WeakMap.set\<close> throws a \<^verbatim>\<open>TypeError\<close> for such a key; the functions that call it test
  the key with \<^const>\<open>isObject\<close>.
\<close>

definition wm_has :: "(val \<rightharpoonup> val) \<Rightarrow> val \<Rightarrow> bool" where
  "wm_has m v = (isObject v \<and> m v \<noteq> None)"

definition wm_get :: "(val \<rightharpoonup> val) \<Rightarrow> val \<Rightarrow> val" where
  "wm_get m v = (if isObject v then (case m v of Some w \<Rightarrow> w | None \<Rightarrow> Undefined) else Undefined)"

text \<open>
  Settling a promise: only a pending promise changes. Resolving with another promise
  makes the promise follow that one.
\<close>

definition settle :: "pstate \<Rightarrow> pstate \<Rightarrow> pstate" where
  "settle new old = (if old = Pending then new else old)"

definition resolve :: "nat \<Rightarrow> val \<Rightarrow> state \<Rightarrow> state" where
  "resolve p v s =
     s\<lparr>promises := (promises s)
          (p := settle (case v of Promise q \<Rightarrow> Adopted v | _ \<Rightarrow> Fulfilled v) (promises s p))\<rparr>"

definition reject :: "nat \<Rightarrow> val \<Rightarrow> state \<Rightarrow> state" where
  "reject p e s = s\<lparr>promises := (promises s)(p := settle (Rejected e) (promises s p))\<rparr>"

text \<open>\<^verbatim>\<open>v[i]\<close> for a numeric index, as the source reads \<^verbatim>\<open>objectStoreNames[1]\<close>.\<close>

definition elem :: "val \<Rightarrow> nat \<Rightarrow> state \<Rightarrow> val outcome" where
  "elem v i s =
     (case v of
        Undefined \<Rightarrow> Throw TypeError s
      | Null \<Rightarrow> Throw TypeError s
      | StrList xs \<Rightarrow> Return (if i < length xs then JStr (xs ! i) else Undefined) s
      | _ \<Rightarrow> Return Undefined s)"

section \<open>The host objects\<close>

text \<open>
  Reading a property of a raw host object: its own value, else the native method of that
  name on its prototype chain, else \<^verbatim>\<open>undefined\<close>. A native method is one object per class
  and name.
\<close>

definition obj_get :: "string list \<Rightarrow> kind \<Rightarrow> (pkey \<times> val) list \<Rightarrow> pkey \<Rightarrow> val" where
  "obj_get members k ps p =
     (case map_of ps p of
        Some v \<Rightarrow> v
      | None \<Rightarrow>
          (case p of
             Name nm \<Rightarrow> if nm \<in> set members then Fn 0 (Native k nm) else Undefined
           | _ \<Rightarrow> Undefined))"

definition raw_get :: "state \<Rightarrow> kind \<Rightarrow> nat \<Rightarrow> pkey \<Rightarrow> val" where
  "raw_get s k i p = obj_get (protoMembers s k) k (hprops (hobjs s i)) p"

definition obj_has :: "string list \<Rightarrow> (pkey \<times> val) list \<Rightarrow> pkey \<Rightarrow> bool" where
  "obj_has members ps p =
     (map_of ps p \<noteq> None \<or> (case p of Name nm \<Rightarrow> nm \<in> set members | _ \<Rightarrow> False))"

definition raw_has :: "state \<Rightarrow> kind \<Rightarrow> nat \<Rightarrow> pkey \<Rightarrow> bool" where
  "raw_has s k i p = obj_has (protoMembers s k) (hprops (hobjs s i)) p"

text \<open>A listener registered twice for the same event type is registered once.\<close>

definition listen :: "string \<Rightarrow> val \<Rightarrow> hobj \<Rightarrow> hobj" where
  "listen ty l h =
     (if (ty, l) \<in> set (hlisteners h) then h else h\<lparr>hlisteners := hlisteners h @ [(ty, l)]\<rparr>)"

definition unlisten :: "string \<Rightarrow> val \<Rightarrow> hobj \<Rightarrow> hobj" where
  "unlisten ty l h = h\<lparr>hlisteners := removeAll (ty, l) (hlisteners h)\<rparr>"

definition add_listener :: "nat \<Rightarrow> string \<Rightarrow> val \<Rightarrow> state \<Rightarrow> state" where
  "add_listener i ty l s = s\<lparr>hobjs := (hobjs s)(i := listen ty l (hobjs s i))\<rparr>"

definition remove_listener :: "nat \<Rightarrow> string \<Rightarrow> val \<Rightarrow> state \<Rightarrow> state" where
  "remove_listener i ty l s = s\<lparr>hobjs := (hobjs s)(i := unlisten ty l (hobjs s i))\<rparr>"

definition new_host :: "kind \<Rightarrow> (pkey \<times> val) list \<Rightarrow> hdata \<Rightarrow> state \<Rightarrow> val \<times> state" where
  "new_host k ps d s =
     (Host k (nextId s),
      s\<lparr>nextId := Suc (nextId s),
        hobjs := (hobjs s)(nextId s := \<lparr>hprops = ps, hlisteners = [], hdata = d\<rparr>)\<rparr>)"

definition set_hprop :: "nat \<Rightarrow> pkey \<Rightarrow> val \<Rightarrow> state \<Rightarrow> state" where
  "set_hprop i p v s =
     s\<lparr>hobjs := (hobjs s)(i := (hobjs s i)\<lparr>hprops := (p, v) # hprops (hobjs s i)\<rparr>)\<rparr>"

definition set_hdata :: "nat \<Rightarrow> hdata \<Rightarrow> state \<Rightarrow> state" where
  "set_hdata i d s = s\<lparr>hobjs := (hobjs s)(i := (hobjs s i)\<lparr>hdata := d\<rparr>)\<rparr>"

definition enqueue :: "event \<Rightarrow> state \<Rightarrow> state" where
  "enqueue e s = s\<lparr>hqueue := hqueue s @ [e]\<rparr>"

text \<open>The host's conversion of an argument to a name.\<close>

fun arg_name :: "val list \<Rightarrow> string option" where
  "arg_name [] = Some ''undefined''"
| "arg_name (JStr x # vs) = Some x"
| "arg_name (Undefined # vs) = Some ''undefined''"
| "arg_name (Null # vs) = Some ''null''"
| "arg_name (v # vs) = None"

subsection \<open>The native methods\<close>

text \<open>
  Modelled from the spec: the host platform of section 6 (the database, its transactions,
  object stores, indexes, cursors and requests), which is outside the repository. A native
  method called on an object of another class fails (an illegal invocation).
\<close>

definition host_addEventListener :: "nat \<Rightarrow> val list \<Rightarrow> state \<Rightarrow> val outcome" where
  "host_addEventListener i args s =
     (case args of
        JStr ty # l # rest \<Rightarrow> Return Undefined (if isFunction l then add_listener i ty l s else s)
      | _ \<Rightarrow> Throw TypeError s)"

definition host_removeEventListener :: "nat \<Rightarrow> val list \<Rightarrow> state \<Rightarrow> val outcome" where
  "host_removeEventListener i args s =
     (case args of
        JStr ty # l # rest \<Rightarrow> Return Undefined (remove_listener i ty l s)
      | _ \<Rightarrow> Throw TypeError s)"

text \<open>
  \<^verbatim>\<open>db.transaction(names, mode)\<close>: a new transaction over the named stores; it fails when the
  scope is empty or names a store the database has not.
\<close>

definition host_transaction :: "nat \<Rightarrow> val list \<Rightarrow> state \<Rightarrow> val outcome" where
  "host_transaction i args s =
     (case hdata (hobjs s i) of
        DbData stores \<Rightarrow>
          (let scope = (case args of StrList xs # rest \<Rightarrow> Some xs
                        | a # rest \<Rightarrow> map_option (\<lambda>x. [x]) (arg_name args)
                        | [] \<Rightarrow> None);
               mode = (case args of a # m # rest \<Rightarrow> m | _ \<Rightarrow> JStr ''readonly'')
           in case scope of
                None \<Rightarrow> Throw TypeError s
              | Some xs \<Rightarrow>
                  if xs = [] then Throw (DOMException ''InvalidAccessError'' ''InvalidAccessError'') s
                  else if \<not> list_all (\<lambda>x. map_of stores x \<noteq> None) xs
                  then Throw (DOMException ''NotFoundError'' ''NotFoundError'') s
                  else (case new_host IDBTransaction
                               [(Name ''objectStoreNames'', StrList xs), (Name ''mode'', mode),
                                (Name ''error'', Null), (Name ''db'', Host IDBDatabase i)]
                               (TxnData i xs []) s of
                          (t, s') \<Rightarrow> Return t s'))
      | _ \<Rightarrow> Throw TypeError s)"

text \<open>
  \<^verbatim>\<open>tx.objectStore(name)\<close>: the store of that name in the scope of the transaction, the same
  object at every call; a name outside the scope fails with \<^verbatim>\<open>NotFoundError\<close>.
\<close>

definition host_objectStore :: "nat \<Rightarrow> val list \<Rightarrow> state \<Rightarrow> val outcome" where
  "host_objectStore i args s =
     (case hdata (hobjs s i) of
        TxnData db scope made \<Rightarrow>
          (case arg_name args of
             None \<Rightarrow> Throw (DOMException ''NotFoundError'' ''NotFoundError'') s
           | Some x \<Rightarrow>
               if x \<notin> set scope then Throw (DOMException ''NotFoundError'' ''NotFoundError'') s
               else (case map_of made x of
                       Some st \<Rightarrow> Return st s
                     | None \<Rightarrow>
                         (let (recs, idx) = (case hdata (hobjs s db) of
                                   DbData stores \<Rightarrow> (case map_of stores x of Some d \<Rightarrow> d | None \<Rightarrow> ([], []))
                                 | _ \<Rightarrow> ([], []))
                          in case new_host IDBObjectStore
                                    [(Name ''name'', JStr x), (Name ''transaction'', Host IDBTransaction i)]
                                    (StoreData recs idx []) s of
                               (st, s') \<Rightarrow> Return st (set_hdata i (TxnData db scope (made @ [(x, st)])) s'))))
      | _ \<Rightarrow> Throw TypeError s)"

text \<open>\<^verbatim>\<open>store.index(name)\<close>: the index of that name, the same object at every call.\<close>

definition host_index :: "nat \<Rightarrow> val list \<Rightarrow> state \<Rightarrow> val outcome" where
  "host_index i args s =
     (case hdata (hobjs s i) of
        StoreData recs idx made \<Rightarrow>
          (case arg_name args of
             None \<Rightarrow> Throw (DOMException ''NotFoundError'' ''NotFoundError'') s
           | Some x \<Rightarrow>
               (case map_of idx x of
                  None \<Rightarrow> Throw (DOMException ''NotFoundError'' ''NotFoundError'') s
                | Some irecs \<Rightarrow>
                    (case map_of made x of
                       Some ix \<Rightarrow> Return ix s
                     | None \<Rightarrow>
                         (case new_host IDBIndex
                                 [(Name ''name'', JStr x), (Name ''objectStore'', Host IDBObjectStore i)]
                                 (IndexData irecs) s of
                            (ix, s') \<Rightarrow> Return ix (set_hdata i (StoreData recs idx (made @ [(x, ix)])) s')))))
      | _ \<Rightarrow> Throw TypeError s)"

text \<open>
  A read or write operation of a store or an index returns a new request. When and how it
  settles is the host's business: the events arrive through the queue.
\<close>

definition host_operation :: "kind \<Rightarrow> nat \<Rightarrow> val list \<Rightarrow> state \<Rightarrow> val outcome" where
  "host_operation k i args s =
     (case new_host IDBRequest
             [(Name ''result'', Undefined), (Name ''error'', Null), (Name ''source'', Host k i)]
             NoData s of
        (r, s') \<Rightarrow> Return r s')"

text \<open>
  \<^verbatim>\<open>openCursor\<close> returns a request that will succeed with a cursor on the first record, or
  with \<^verbatim>\<open>null\<close> when there is none. The advancing methods of a cursor move it on; the
  request of the cursor then succeeds again, with the cursor or with \<^verbatim>\<open>null\<close> when the
  records are exhausted.
\<close>

definition host_openCursor :: "kind \<Rightarrow> nat \<Rightarrow> val list \<Rightarrow> state \<Rightarrow> val outcome" where
  "host_openCursor k i args s =
     (let recs = (case hdata (hobjs s i) of StoreData rs idx made \<Rightarrow> rs | IndexData rs \<Rightarrow> rs | _ \<Rightarrow> [])
      in case new_host IDBRequest
                [(Name ''result'', Undefined), (Name ''error'', Null), (Name ''source'', Host k i)]
                NoData s of
           (r, s1) \<Rightarrow>
             (case recs of
                [] \<Rightarrow> Return r (enqueue (r, ''success'', [(nextId s, Name ''result'', Null)]) s1)
              | x # xs \<Rightarrow>
                  (case new_host IDBCursor
                          [(Name ''request'', r), (Name ''source'', Host k i)]
                          (CursorData r xs) s1 of
                     (c, s2) \<Rightarrow>
                       Return r (enqueue (r, ''success'',
                                   [(nextId s1, Name ''value'', x), (nextId s, Name ''result'', c)]) s2))))"

definition host_advance :: "nat \<Rightarrow> nat \<Rightarrow> state \<Rightarrow> val outcome" where
  "host_advance i count s =
     (case hdata (hobjs s i) of
        CursorData r rest \<Rightarrow>
          (case r of
             Host IDBRequest j \<Rightarrow>
               (case drop (count - 1) rest of
                  [] \<Rightarrow>
                    Return Undefined
                      (enqueue (r, ''success'', [(j, Name ''result'', Null)])
                         (set_hdata i (CursorData r []) s))
                | x # xs \<Rightarrow>
                    Return Undefined
                      (enqueue (r, ''success'', [(i, Name ''value'', x), (j, Name ''result'', Host IDBCursor i)])
                         (set_hdata i (CursorData r xs) s)))
           | _ \<Rightarrow> Throw TypeError s)
      | _ \<Rightarrow> Throw TypeError s)"

definition readMethods :: "string list" where
  "readMethods = [''get'', ''getKey'', ''getAll'', ''getAllKeys'', ''count'']"

definition writeMethods :: "string list" where
  "writeMethods = [''put'', ''add'', ''delete'', ''clear'']"

definition advanceMethods :: "string list" where
  "advanceMethods = [''advance'', ''continue'', ''continuePrimaryKey'']"

definition host_call :: "kind \<Rightarrow> string \<Rightarrow> val \<Rightarrow> val list \<Rightarrow> state \<Rightarrow> val outcome" where
  "host_call k nm this args s =
     (case this of
        Host k' i \<Rightarrow>
          if k' \<noteq> k then Throw TypeError s
          else if nm = ''addEventListener'' then host_addEventListener i args s
          else if nm = ''removeEventListener'' then host_removeEventListener i args s
          else if k = IDBDatabase \<and> nm = ''transaction'' then host_transaction i args s
          else if k = IDBTransaction \<and> nm = ''objectStore'' then host_objectStore i args s
          else if k = IDBObjectStore \<and> nm = ''index'' then host_index i args s
          else if (k = IDBObjectStore \<or> k = IDBIndex) \<and> nm = ''openCursor'' then host_openCursor k i args s
          else if (k = IDBObjectStore \<or> k = IDBIndex) \<and> (nm \<in> set readMethods \<or> nm \<in> set writeMethods)
          then host_operation k i args s
          else if k = IDBCursor \<and> nm = ''advance''
          then (case args of JNum c # rest \<Rightarrow> if 0 < c then host_advance i (nat c) s else Throw TypeError s
                | _ \<Rightarrow> Throw TypeError s)
          else if k = IDBCursor \<and> (nm = ''continue'' \<or> nm = ''continuePrimaryKey'') then host_advance i 1 s
          else Stuck
      | _ \<Rightarrow> Throw TypeError s)"


section \<open>The wrapping layer\<close>

definition unwrap :: "val \<Rightarrow> state \<Rightarrow> val" where
  "unwrap v s = wm_get (reverseTransformCache s) v"

definition isStoreLike :: "val \<Rightarrow> bool" where
  "isStoreLike v = (instanceof v IDBObjectStore \<or> instanceof v IDBIndex)"

text \<open>The list of proxyable classes is filled at the first call.\<close>

definition isProxyable :: "val \<Rightarrow> state \<Rightarrow> bool \<times> state" where
  "isProxyable v s =
     (let s' = (if idbProxyableTypes s = []
                then s\<lparr>idbProxyableTypes := [IDBDatabase, IDBCursor, IDBTransaction]\<rparr> else s)
      in (isStoreLike v \<or> list_ex (\<lambda>c. instanceof v c) (idbProxyableTypes s'), s'))"

definition isIteratorProp :: "val \<Rightarrow> pkey \<Rightarrow> bool" where
  "isIteratorProp target p =
     (if p = AsyncIterator then isStoreLike target \<or> instanceof target IDBCursor
      else p = Name ''iterate'' \<and> isStoreLike target)"

text \<open>\<^verbatim>\<open>Map.get\<close> on the cache of methods.\<close>

definition map_get :: "(string \<rightharpoonup> val) \<Rightarrow> string \<Rightarrow> val" where
  "map_get m k = (case m k of Some v \<Rightarrow> v | None \<Rightarrow> Undefined)"

text \<open>\<^verbatim>\<open>prop.replace(/FromIndex$/, '')\<close>.\<close>

definition stripFromIndex :: "string \<Rightarrow> string" where
  "stripFromIndex nm =
     (if 9 \<le> length nm \<and> drop (length nm - 9) nm = ''FromIndex'' then take (length nm - 9) nm else nm)"

definition wrapFunction :: "val \<Rightarrow> state \<Rightarrow> val outcome" where
  "wrapFunction f s =
     (if f \<in> cursorFunctions s
      then Return (Fn (nextId s) (WrappedCursorFn f)) (s\<lparr>nextId := Suc (nextId s)\<rparr>)
      else Return (Fn (nextId s) (WrappedFn f)) (s\<lparr>nextId := Suc (nextId s)\<rparr>))"

text \<open>
  The end of a promise executor: an exception it throws rejects the promise and goes no
  further.
\<close>

definition executor_done :: "nat \<Rightarrow> 'a outcome \<Rightarrow> state option" where
  "executor_done p m =
     (case m of Return a s \<Rightarrow> Some s | Throw e s \<Rightarrow> Some (reject p e s) | Stuck \<Rightarrow> None)"

text \<open>
  Property reads, the \<^verbatim>\<open>in\<close> operator and calls go through the traps of a proxy, which wrap
  what they return, and \<^verbatim>\<open>wrap\<close> itself calls methods of the value it wraps: the four
  operations are mutually recursive. Each function of the source is written over the
  operations it calls (a record \<open>ops\<close>), and \<open>layer n\<close> ties the knot for calls nested at most
  \<open>n\<close> deep; \<^const>\<open>Stuck\<close> is the answer beyond that depth, and of what lies outside the model.
\<close>

record ops =
  l_get_prop :: "val \<Rightarrow> pkey \<Rightarrow> state \<Rightarrow> val outcome"
  l_has_prop :: "pkey \<Rightarrow> val \<Rightarrow> state \<Rightarrow> bool outcome"
  l_call :: "val \<Rightarrow> val \<Rightarrow> val list \<Rightarrow> state \<Rightarrow> val outcome"
  l_wrap :: "val \<Rightarrow> state \<Rightarrow> val outcome"

text \<open>\<^verbatim>\<open>obj.nm(...args)\<close>.\<close>

definition call_method :: "ops \<Rightarrow> val \<Rightarrow> string \<Rightarrow> val list \<Rightarrow> state \<Rightarrow> val outcome" where
  "call_method L obj nm args s =
     bind (l_get_prop L obj (Name nm) s) (\<lambda>f s1. l_call L f obj args s1)"

definition promisifyRequest :: "ops \<Rightarrow> val \<Rightarrow> state \<Rightarrow> val outcome" where
  "promisifyRequest L request s =
     (case executor_done (nextId s)
             (bind (call_method L request ''addEventListener''
                      [JStr ''success'', Fn (nextId s) (ReqSuccess (nextId s) request)]
                      (s\<lparr>nextId := Suc (nextId s), promises := (promises s)(nextId s := Pending)\<rparr>)) (\<lambda>u s1.
                call_method L request ''addEventListener''
                      [JStr ''error'', Fn (nextId s) (ReqError (nextId s) request)] s1)) of
        None \<Rightarrow> Stuck
      | Some s2 \<Rightarrow>
          Return (Promise (nextId s))
            (s2\<lparr>reverseTransformCache := (reverseTransformCache s2)(Promise (nextId s) \<mapsto> request)\<rparr>))"

text \<open>
  The completion promise of a transaction, created when the transaction has none yet.
\<close>

definition make_done :: "ops \<Rightarrow> val \<Rightarrow> state \<Rightarrow> state option" where
  "make_done L v s =
     (if instanceof v IDBTransaction \<and> \<not> wm_has (transactionDoneMap s) v
      then (case executor_done (nextId s)
                   (bind (call_method L v ''addEventListener''
                            [JStr ''complete'', Fn (nextId s) (TxComplete (nextId s) v)]
                            (s\<lparr>nextId := Suc (nextId s), promises := (promises s)(nextId s := Pending)\<rparr>)) (\<lambda>u s1.
                    bind (call_method L v ''addEventListener''
                            [JStr ''error'', Fn (nextId s) (TxError (nextId s) v)] s1) (\<lambda>u s2.
                      call_method L v ''addEventListener''
                            [JStr ''abort'', Fn (nextId s) (TxError (nextId s) v)] s2))) of
              None \<Rightarrow> None
            | Some s3 \<Rightarrow>
                Some (s3\<lparr>transactionDoneMap := (transactionDoneMap s3)(v \<mapsto> Promise (nextId s))\<rparr>))
      else Some s)"

definition transformCachableValue :: "ops \<Rightarrow> val \<Rightarrow> state \<Rightarrow> val outcome" where
  "transformCachableValue L v s =
     (if isFunction v then wrapFunction v s
      else
        (case make_done L v s of
           None \<Rightarrow> Stuck
         | Some s1 \<Rightarrow>
             (case isProxyable v s1 of
                (b, s2) \<Rightarrow>
                  if b then Return (Proxy (nextId s2) IdbProxyTraps v) (s2\<lparr>nextId := Suc (nextId s2)\<rparr>)
                  else Return v s2)))"

definition wrap_body :: "ops \<Rightarrow> val \<Rightarrow> state \<Rightarrow> val outcome" where
  "wrap_body L v s =
     (if instanceof v IDBRequest then promisifyRequest L v s
      else if wm_has (transformCache s) v then Return (wm_get (transformCache s) v) s
      else bind (transformCachableValue L v s) (\<lambda>newValue s1.
             if strict_neq newValue v
             then (if \<not> isObject v then Throw TypeError s1
                   else if \<not> isObject newValue
                   then Throw TypeError (s1\<lparr>transformCache := (transformCache s1)(v \<mapsto> newValue)\<rparr>)
                   else Return newValue
                          (s1\<lparr>transformCache := (transformCache s1)(v \<mapsto> newValue),
                              reverseTransformCache := (reverseTransformCache s1)(newValue \<mapsto> v)\<rparr>))
             else Return newValue s1))"

definition getMethod :: "ops \<Rightarrow> val \<Rightarrow> pkey \<Rightarrow> state \<Rightarrow> val outcome" where
  "getMethod L target p s =
     (if \<not> instanceof target IDBDatabase then Return Undefined s
      else bind (l_has_prop L p target s) (\<lambda>present s1.
        (case p of
           Name nm \<Rightarrow>
             if present then Return Undefined s1
             else if cachedMethods s1 nm \<noteq> None then Return (map_get (cachedMethods s1) nm) s1
             else
               (let targetFuncName = stripFromIndex nm;
                    useIndex = (nm \<noteq> targetFuncName);
                    isWrite = (targetFuncName \<in> set writeMethods)
                in if \<not> (targetFuncName \<in> set (protoMembers s1 (if useIndex then IDBIndex else IDBObjectStore)))
                      \<or> \<not> (isWrite \<or> targetFuncName \<in> set readMethods)
                   then Return Undefined s1
                   else Return (Fn (nextId s1) (Shorthand targetFuncName useIndex isWrite))
                          (s1\<lparr>nextId := Suc (nextId s1),
                              cachedMethods := (cachedMethods s1)
                                (nm \<mapsto> Fn (nextId s1) (Shorthand targetFuncName useIndex isWrite))\<rparr>))
         | _ \<Rightarrow> Return Undefined s1)))"

text \<open>The \<^verbatim>\<open>store\<close> property of a wrapped transaction.\<close>

definition tx_store :: "ops \<Rightarrow> val \<Rightarrow> state \<Rightarrow> val outcome" where
  "tx_store L receiver s =
     bind (l_get_prop L receiver (Name ''objectStoreNames'') s) (\<lambda>names s1.
     bind (elem names 1 s1) (\<lambda>second s2.
       if truthy second then Return Undefined s2
       else bind (l_get_prop L receiver (Name ''objectStore'') s2) (\<lambda>f s3.
            bind (l_get_prop L receiver (Name ''objectStoreNames'') s3) (\<lambda>names' s4.
            bind (elem names' 0 s4) (\<lambda>first s5.
              l_call L f receiver [first] s5)))))"

definition idbProxyTraps_get :: "ops \<Rightarrow> val \<Rightarrow> pkey \<Rightarrow> val \<Rightarrow> state \<Rightarrow> val outcome" where
  "idbProxyTraps_get L target p receiver s =
     (if isIteratorProp target p then Return (Fn 0 Iterate) s
      else
        (case p of
           Name nm \<Rightarrow>
             bind (getMethod L target p s) (\<lambda>m s1.
               if truthy m then Return m s1
               else if instanceof target IDBCursor \<and> nm \<in> set advanceMethods
               then bind (l_get_prop L target p s1) (\<lambda>f s2.
                      if \<not> isObject f then Throw TypeError s2
                      else bind (l_get_prop L target p (s2\<lparr>cursorFunctions := insert f (cursorFunctions s2)\<rparr>))
                             (\<lambda>f' s3. l_wrap L f' s3))
               else if instanceof target IDBTransaction \<and> nm = ''done''
               then Return (wm_get (transactionDoneMap s1) target) s1
               else if instanceof target IDBTransaction \<and> nm = ''store''
               then tx_store L receiver s1
               else bind (l_get_prop L target p s1) (\<lambda>v s2. l_wrap L v s2))
         | _ \<Rightarrow> bind (l_get_prop L target p s) (\<lambda>v s1. l_wrap L v s1)))"

definition idbProxyTraps_has :: "ops \<Rightarrow> val \<Rightarrow> pkey \<Rightarrow> state \<Rightarrow> bool outcome" where
  "idbProxyTraps_has L target p s =
     (if isIteratorProp target p then Return True s
      else bind (getMethod L target p s) (\<lambda>m s1.
        if truthy m then Return True s1
        else if instanceof target IDBTransaction \<and> (p = Name ''done'' \<or> p = Name ''store'')
        then Return True s1
        else l_has_prop L p target s1))"

definition cursorIteratorTraps_get :: "ops \<Rightarrow> val \<Rightarrow> pkey \<Rightarrow> state \<Rightarrow> val outcome" where
  "cursorIteratorTraps_get L target p s =
     (case p of
        Name nm \<Rightarrow>
          if nm \<notin> set advanceMethods then l_get_prop L target p s
          else
            (let s1 = (if cachedMethods s nm = None
                       then s\<lparr>nextId := Suc (nextId s),
                              cachedMethods := (cachedMethods s)(nm \<mapsto> Fn (nextId s) (AdvanceStub nm))\<rparr>
                       else s)
             in Return (map_get (cachedMethods s1) nm) s1)
      | _ \<Rightarrow> l_get_prop L target p s)"

text \<open>\<^verbatim>\<open>v[p]\<close>: through the trap of a proxy, from the host object otherwise.\<close>

definition get_prop_body :: "ops \<Rightarrow> val \<Rightarrow> pkey \<Rightarrow> state \<Rightarrow> val outcome" where
  "get_prop_body L v p s =
     (case v of
        Undefined \<Rightarrow> Throw TypeError s
      | Null \<Rightarrow> Throw TypeError s
      | Host k i \<Rightarrow> Return (raw_get s k i p) s
      | Proxy i h t \<Rightarrow>
          (case h of
             IdbProxyTraps \<Rightarrow> idbProxyTraps_get L t p v s
           | CursorIteratorTraps \<Rightarrow> cursorIteratorTraps_get L t p s)
      | _ \<Rightarrow> Return Undefined s)"

text \<open>\<^verbatim>\<open>p in v\<close>; the cursor iteration handler has no \<^verbatim>\<open>has\<close> trap.\<close>

definition has_prop_body :: "ops \<Rightarrow> pkey \<Rightarrow> val \<Rightarrow> state \<Rightarrow> bool outcome" where
  "has_prop_body L p v s =
     (case v of
        Host k i \<Rightarrow> Return (raw_has s k i p) s
      | Proxy i h t \<Rightarrow>
          (case h of
             IdbProxyTraps \<Rightarrow> idbProxyTraps_has L t p s
           | CursorIteratorTraps \<Rightarrow> l_has_prop L p t s)
      | _ \<Rightarrow> if isObject v then Return False s else Throw TypeError s)"

text \<open>
  \<^verbatim>\<open>f.apply(this, args)\<close> for the functions of the source: the two wrappers of
  \<^verbatim>\<open>wrapFunction\<close>, the stub of the cursor iteration handler, and the listeners of
  \<^verbatim>\<open>promisifyRequest\<close> and of the completion promise. The generator \<^verbatim>\<open>iterate\<close> and the
  asynchronous shorthand methods are run by their own definitions below.
\<close>

definition call_closure :: "ops \<Rightarrow> nat \<Rightarrow> func \<Rightarrow> val \<Rightarrow> val list \<Rightarrow> state \<Rightarrow> val outcome" where
  "call_closure L i g this args s =
     (case g of
        Native k nm \<Rightarrow> host_call k nm this args s
      | WrappedFn func \<Rightarrow>
          bind (l_call L func (unwrap this s) args s) (\<lambda>r s1. l_wrap L r s1)
      | WrappedCursorFn func \<Rightarrow>
          bind (l_call L func (unwrap this s) args s) (\<lambda>r s1.
          bind (l_get_prop L this (Name ''request'') s1) (\<lambda>req s2. l_wrap L req s2))
      | AdvanceStub nm \<Rightarrow>
          bind (l_get_prop L (wm_get (proxiedCursorLookup s) this) (Name nm) s) (\<lambda>m s1.
          bind (l_call L m (wm_get (proxiedCursorLookup s) this) args s1) (\<lambda>result s2.
            if isObject this
            then Return Undefined (s2\<lparr>advanceResults := (advanceResults s2)(this \<mapsto> result)\<rparr>)
            else Throw TypeError s2))
      | ReqSuccess p request \<Rightarrow>
          bind (l_get_prop L request (Name ''result'') s) (\<lambda>r s1.
          bind (l_wrap L r s1) (\<lambda>w s2.
          bind (call_method L request ''removeEventListener''
                  [JStr ''success'', Fn i (ReqSuccess p request)] (resolve p w s2)) (\<lambda>u s3.
            call_method L request ''removeEventListener'' [JStr ''error'', Fn i (ReqError p request)] s3)))
      | ReqError p request \<Rightarrow>
          bind (l_get_prop L request (Name ''error'') s) (\<lambda>e s1.
          bind (call_method L request ''removeEventListener''
                  [JStr ''success'', Fn i (ReqSuccess p request)] (reject p e s1)) (\<lambda>u s2.
            call_method L request ''removeEventListener'' [JStr ''error'', Fn i (ReqError p request)] s2))
      | TxComplete p tx \<Rightarrow>
          bind (call_method L tx ''removeEventListener''
                  [JStr ''complete'', Fn i (TxComplete p tx)] (resolve p Undefined s)) (\<lambda>u s1.
          bind (call_method L tx ''removeEventListener'' [JStr ''error'', Fn i (TxError p tx)] s1) (\<lambda>u s2.
            call_method L tx ''removeEventListener'' [JStr ''abort'', Fn i (TxError p tx)] s2))
      | TxError p tx \<Rightarrow>
          bind (l_get_prop L tx (Name ''error'') s) (\<lambda>e s1.
          bind (call_method L tx ''removeEventListener'' [JStr ''complete'', Fn i (TxComplete p tx)]
                  (reject p (if truthy e then e else DOMException ''AbortError'' ''AbortError'') s1)) (\<lambda>u s2.
          bind (call_method L tx ''removeEventListener'' [JStr ''error'', Fn i (TxError p tx)] s2) (\<lambda>u s3.
            call_method L tx ''removeEventListener'' [JStr ''abort'', Fn i (TxError p tx)] s3)))
      | _ \<Rightarrow> Stuck)"

definition call_body :: "ops \<Rightarrow> val \<Rightarrow> val \<Rightarrow> val list \<Rightarrow> state \<Rightarrow> val outcome" where
  "call_body L f this args s =
     (case f of
        Fn i g \<Rightarrow> call_closure L i g this args s
      | Proxy i h t \<Rightarrow> if isFunction t then l_call L t this args s else Throw TypeError s
      | _ \<Rightarrow> Throw TypeError s)"

primrec layer :: "nat \<Rightarrow> ops" where
  "layer 0 =
     \<lparr>l_get_prop = (\<lambda>v p s. Stuck), l_has_prop = (\<lambda>p v s. Stuck),
      l_call = (\<lambda>f this args s. Stuck), l_wrap = (\<lambda>v s. Stuck)\<rparr>"
| "layer (Suc n) =
     \<lparr>l_get_prop = get_prop_body (layer n), l_has_prop = has_prop_body (layer n),
      l_call = call_body (layer n), l_wrap = wrap_body (layer n)\<rparr>"

abbreviation get_prop :: "nat \<Rightarrow> val \<Rightarrow> pkey \<Rightarrow> state \<Rightarrow> val outcome" where
  "get_prop n \<equiv> l_get_prop (layer n)"

abbreviation has_prop :: "nat \<Rightarrow> pkey \<Rightarrow> val \<Rightarrow> state \<Rightarrow> bool outcome" where
  "has_prop n \<equiv> l_has_prop (layer n)"

abbreviation call :: "nat \<Rightarrow> val \<Rightarrow> val \<Rightarrow> val list \<Rightarrow> state \<Rightarrow> val outcome" where
  "call n \<equiv> l_call (layer n)"

abbreviation wrap :: "nat \<Rightarrow> val \<Rightarrow> state \<Rightarrow> val outcome" where
  "wrap n \<equiv> l_wrap (layer n)"


section \<open>Events and awaiting\<close>

definition apply_updates :: "(nat \<times> pkey \<times> val) list \<Rightarrow> state \<Rightarrow> state" where
  "apply_updates ups s = foldl (\<lambda>s' u. set_hprop (fst u) (fst (snd u)) (snd (snd u)) s') s ups"

definition registered :: "val \<Rightarrow> string \<Rightarrow> val \<Rightarrow> state \<Rightarrow> bool" where
  "registered target ty l s =
     (case target of Host k i \<Rightarrow> (ty, l) \<in> set (hlisteners (hobjs s i)) | _ \<Rightarrow> False)"

text \<open>
  The host calls the listeners that were registered when the dispatch began, in the order
  of their registration, leaving out those removed meanwhile. An exception of a listener
  is reported and stops nothing.
\<close>

fun run_listeners :: "ops \<Rightarrow> val \<Rightarrow> string \<Rightarrow> val list \<Rightarrow> state \<Rightarrow> state option" where
  "run_listeners L target ty [] s = Some s"
| "run_listeners L target ty (l # ls) s =
     (if registered target ty l s
      then (case l_call L l target [] s of
              Return r s1 \<Rightarrow> run_listeners L target ty ls s1
            | Throw e s1 \<Rightarrow> run_listeners L target ty ls s1
            | Stuck \<Rightarrow> None)
      else run_listeners L target ty ls s)"

definition listeners_for :: "val \<Rightarrow> string \<Rightarrow> state \<Rightarrow> val list" where
  "listeners_for target ty s =
     (case target of
        Host k i \<Rightarrow> map snd (filter (\<lambda>x. fst x = ty) (hlisteners (hobjs s i)))
      | _ \<Rightarrow> [])"

definition dispatch :: "ops \<Rightarrow> event \<Rightarrow> state \<Rightarrow> state option" where
  "dispatch L ev s =
     (case ev of
        (target, ty, ups) \<Rightarrow>
          run_listeners L target ty (listeners_for target ty (apply_updates ups s)) (apply_updates ups s))"

text \<open>
  The host delivers the queued events one by one until the awaited condition holds. When
  the queue is empty before that, the condition never holds: the answer is \<open>None\<close>, as it
  is when the bound on the number of events is used up.
\<close>

fun deliver :: "ops \<Rightarrow> nat \<Rightarrow> (state \<Rightarrow> 'a option) \<Rightarrow> state \<Rightarrow> ('a \<times> state) option" where
  "deliver L 0 ready s = (case ready s of Some a \<Rightarrow> Some (a, s) | None \<Rightarrow> None)"
| "deliver L (Suc e) ready s =
     (case ready s of
        Some a \<Rightarrow> Some (a, s)
      | None \<Rightarrow>
          (case hqueue s of
             [] \<Rightarrow> None
           | ev # evs \<Rightarrow>
               (case dispatch L ev (s\<lparr>hqueue := evs\<rparr>) of
                  None \<Rightarrow> None
                | Some s1 \<Rightarrow> deliver L e ready s1)))"

text \<open>
  The settled state of a value: of a promise it is its state, through the promises it
  follows; any other value counts as fulfilled with itself.
\<close>

fun promise_state :: "nat \<Rightarrow> state \<Rightarrow> val \<Rightarrow> pstate" where
  "promise_state 0 s v = Pending"
| "promise_state (Suc n) s v =
     (case v of
        Promise p \<Rightarrow> (case promises s p of Adopted q \<Rightarrow> promise_state n s q | st \<Rightarrow> st)
      | _ \<Rightarrow> Fulfilled v)"

fun promise_ids :: "val list \<Rightarrow> nat set" where
  "promise_ids [] = {}"
| "promise_ids (Promise p # vs) = insert p (promise_ids vs)"
| "promise_ids (v # vs) = promise_ids vs"

definition observe :: "val list \<Rightarrow> state \<Rightarrow> state" where
  "observe vs s = s\<lparr>handled := handled s \<union> promise_ids vs\<rparr>"

definition settled :: "nat \<Rightarrow> val \<Rightarrow> state \<Rightarrow> (val + val) option" where
  "settled e v s =
     (case promise_state (Suc e) s v of
        Fulfilled r \<Rightarrow> Some (Inr r)
      | Rejected x \<Rightarrow> Some (Inl x)
      | _ \<Rightarrow> None)"

text \<open>
  \<^verbatim>\<open>await v\<close>: the value a promise is fulfilled with, or the exception it is rejected with;
  \<^const>\<open>Stuck\<close> when it never settles.
\<close>

definition await :: "ops \<Rightarrow> nat \<Rightarrow> val \<Rightarrow> state \<Rightarrow> val outcome" where
  "await L e v s =
     (case deliver L e (settled e v) (observe [v] s) of
        None \<Rightarrow> Stuck
      | Some (Inr r, s1) \<Rightarrow> Return r s1
      | Some (Inl x, s1) \<Rightarrow> Throw x s1)"

text \<open>
  \<^verbatim>\<open>await Promise.all(vs)\<close>: rejected as soon as one of the elements is, with its reason (the
  first element in the list when several are rejected by then); fulfilled with the values
  when all the elements are.
\<close>

fun first_rejection :: "pstate list \<Rightarrow> val option" where
  "first_rejection [] = None"
| "first_rejection (Rejected x # sts) = Some x"
| "first_rejection (st # sts) = first_rejection sts"

fun fulfilled_values :: "pstate list \<Rightarrow> val list option" where
  "fulfilled_values [] = Some []"
| "fulfilled_values (Fulfilled r # sts) = map_option (\<lambda>rs. r # rs) (fulfilled_values sts)"
| "fulfilled_values (st # sts) = None"

definition all_settled :: "nat \<Rightarrow> val list \<Rightarrow> state \<Rightarrow> (val + val list) option" where
  "all_settled e vs s =
     (case first_rejection (map (promise_state (Suc e) s) vs) of
        Some x \<Rightarrow> Some (Inl x)
      | None \<Rightarrow> map_option Inr (fulfilled_values (map (promise_state (Suc e) s) vs)))"

definition await_all :: "ops \<Rightarrow> nat \<Rightarrow> val list \<Rightarrow> state \<Rightarrow> val list outcome" where
  "await_all L e vs s =
     (case deliver L e (all_settled e vs) (observe vs s) of
        None \<Rightarrow> Stuck
      | Some (Inr rs, s1) \<Rightarrow> Return rs s1
      | Some (Inl x, s1) \<Rightarrow> Throw x s1)"

section \<open>Cursor iteration\<close>

text \<open>
  The consumer of the generator is given by the calls its loop body makes on the yielded
  proxy in each pass (a method name and the arguments); a consumer that never advances
  makes none.
\<close>

fun consume :: "ops \<Rightarrow> (string \<times> val list) list \<Rightarrow> val \<Rightarrow> state \<Rightarrow> unit outcome" where
  "consume L [] proxiedCursor s = Return () s"
| "consume L (c # cs) proxiedCursor s =
     bind (call_method L proxiedCursor (fst c) (snd c) s) (\<lambda>r s1. consume L cs proxiedCursor s1)"

text \<open>The position a consumer sees on the yielded proxy: the record under the raw cursor.\<close>

definition position :: "val \<Rightarrow> state \<Rightarrow> val" where
  "position proxiedCursor s =
     (case unwrap proxiedCursor s of Host k i \<Rightarrow> raw_get s k i (Name ''value'') | _ \<Rightarrow> Undefined)"

text \<open>\<^verbatim>\<open>advanceResults.get(proxiedCursor) || cursor.continue()\<close>.\<close>

definition advance_intent :: "ops \<Rightarrow> val \<Rightarrow> val \<Rightarrow> state \<Rightarrow> val outcome" where
  "advance_intent L cursor proxiedCursor s =
     (if truthy (wm_get (advanceResults s) proxiedCursor)
      then Return (wm_get (advanceResults s) proxiedCursor) s
      else call_method L cursor ''continue'' [] s)"

text \<open>
  One pass of the loop after the \<^verbatim>\<open>yield\<close>: the body of the consumer runs, the advance is
  awaited, the stashed intent is cleared. It returns the next value of \<^verbatim>\<open>cursor\<close>.
\<close>

definition iterate_pass ::
  "ops \<Rightarrow> nat \<Rightarrow> (string \<times> val list) list \<Rightarrow> val \<Rightarrow> val \<Rightarrow> state \<Rightarrow> val outcome" where
  "iterate_pass L e calls cursor proxiedCursor s =
     bind (consume L calls proxiedCursor s) (\<lambda>u s1.
     bind (advance_intent L cursor proxiedCursor s1) (\<lambda>intent s2.
     bind (await L e intent s2) (\<lambda>cursor' s3.
       Return cursor' (s3\<lparr>advanceResults := (advanceResults s3)(proxiedCursor := None)\<rparr>))))"

text \<open>
  The loop of the generator. Each pass yields the proxy: the model records the position
  the consumer sees there. The third argument bounds the number of passes.
\<close>

fun iterate_loop ::
  "ops \<Rightarrow> nat \<Rightarrow> nat \<Rightarrow> (string \<times> val list) list list \<Rightarrow> val \<Rightarrow> val \<Rightarrow> state \<Rightarrow> val list outcome" where
  "iterate_loop L e 0 body cursor proxiedCursor s = Stuck"
| "iterate_loop L e (Suc m) body cursor proxiedCursor s =
     (if \<not> truthy cursor then Return [] s
      else
        bind (iterate_pass L e (case body of [] \<Rightarrow> [] | b # bs \<Rightarrow> b) cursor proxiedCursor s) (\<lambda>cursor' s1.
        bind (iterate_loop L e m (tl body) cursor' proxiedCursor s1) (\<lambda>rest s2.
          Return (position proxiedCursor s # rest) s2)))"

text \<open>The start of the generator: the cursor, opened first when the target is a store or an index.\<close>

definition iterate_open :: "ops \<Rightarrow> nat \<Rightarrow> val \<Rightarrow> val list \<Rightarrow> state \<Rightarrow> val outcome" where
  "iterate_open L e this args s =
     (if \<not> instanceof this IDBCursor
      then bind (call_method L this ''openCursor'' args s) (\<lambda>r s1. await L e r s1)
      else Return this s)"

text \<open>The proxy of the cursor for this iteration, and its entries in the two lookups.\<close>

definition iteration_proxy :: "val \<Rightarrow> state \<Rightarrow> val" where
  "iteration_proxy cursor s = Proxy (nextId s) CursorIteratorTraps cursor"

definition register_proxy :: "val \<Rightarrow> state \<Rightarrow> state" where
  "register_proxy cursor s =
     s\<lparr>nextId := Suc (nextId s),
       proxiedCursorLookup := (proxiedCursorLookup s)(iteration_proxy cursor s \<mapsto> cursor),
       reverseTransformCache := (reverseTransformCache s)(iteration_proxy cursor s \<mapsto> unwrap cursor s)\<rparr>"

definition iterate ::
  "ops \<Rightarrow> nat \<Rightarrow> nat \<Rightarrow> (string \<times> val list) list list \<Rightarrow> val \<Rightarrow> val list \<Rightarrow> state \<Rightarrow> val list outcome" where
  "iterate L e m body this args s =
     bind (iterate_open L e this args s) (\<lambda>cursor s1.
       if \<not> truthy cursor then Return [] s1
       else iterate_loop L e m body cursor (iteration_proxy cursor s1) (register_proxy cursor s1))"

section \<open>The shorthand methods of a database\<close>

text \<open>
  The body of a synthesized method up to its \<^verbatim>\<open>await\<close>: the transaction, the target, the
  operation, and the two elements handed to \<^verbatim>\<open>Promise.all\<close>.
\<close>

definition shorthand_start ::
  "ops \<Rightarrow> string \<Rightarrow> bool \<Rightarrow> bool \<Rightarrow> val \<Rightarrow> val list \<Rightarrow> state \<Rightarrow> val list outcome" where
  "shorthand_start L targetFuncName useIndex isWrite this argv s =
     bind (call_method L this ''transaction''
             [case argv of [] \<Rightarrow> Undefined | a # as \<Rightarrow> a,
              JStr (if isWrite then ''readwrite'' else ''readonly'')] s) (\<lambda>tx s1.
     bind (l_get_prop L tx (Name ''store'') s1) (\<lambda>store s2.
     bind (if useIndex
           then call_method L store ''index'' [case tl argv of [] \<Rightarrow> Undefined | a # as \<Rightarrow> a] s2
           else Return store s2) (\<lambda>target s3.
     bind (call_method L target targetFuncName (if useIndex then tl (tl argv) else tl argv) s3) (\<lambda>op s4.
     bind (if isWrite then l_get_prop L tx (Name ''done'') s4 else Return (JBool False) s4) (\<lambda>d s5.
       Return [op, d] s5)))))"

text \<open>
  The synthesized method, an asynchronous function: \<^const>\<open>Return\<close> is the value its promise
  is fulfilled with, \<^const>\<open>Throw\<close> the reason it is rejected with, \<^const>\<open>Stuck\<close> a promise that
  never settles.
\<close>

definition shorthand ::
  "ops \<Rightarrow> nat \<Rightarrow> string \<Rightarrow> bool \<Rightarrow> bool \<Rightarrow> val \<Rightarrow> val list \<Rightarrow> state \<Rightarrow> val outcome" where
  "shorthand L e targetFuncName useIndex isWrite this argv s =
     bind (shorthand_start L targetFuncName useIndex isWrite this argv s) (\<lambda>both s1.
     bind (await_all L e both s1) (\<lambda>rs s2. Return (hd rs) s2))"

section \<open>A browser and a database to run the layer on\<close>

text \<open>The members of the prototypes in a browser that implements the whole API.\<close>

fun std_members :: "kind \<Rightarrow> string list" where
  "std_members IDBDatabase =
     [''name'', ''version'', ''objectStoreNames'', ''transaction'', ''close'', ''createObjectStore'',
      ''deleteObjectStore'', ''onabort'', ''onclose'', ''onerror'', ''onversionchange'',
      ''addEventListener'', ''removeEventListener'', ''dispatchEvent'']"
| "std_members IDBTransaction =
     [''objectStoreNames'', ''mode'', ''durability'', ''db'', ''error'', ''objectStore'', ''commit'',
      ''abort'', ''onabort'', ''oncomplete'', ''onerror'',
      ''addEventListener'', ''removeEventListener'', ''dispatchEvent'']"
| "std_members IDBRequest =
     [''result'', ''error'', ''source'', ''transaction'', ''readyState'', ''onsuccess'', ''onerror'',
      ''addEventListener'', ''removeEventListener'', ''dispatchEvent'']"
| "std_members IDBObjectStore =
     [''name'', ''keyPath'', ''indexNames'', ''transaction'', ''autoIncrement'', ''put'', ''add'',
      ''delete'', ''clear'', ''get'', ''getKey'', ''getAll'', ''getAllKeys'', ''count'', ''openCursor'',
      ''openKeyCursor'', ''index'', ''createIndex'', ''deleteIndex'']"
| "std_members IDBIndex =
     [''name'', ''objectStore'', ''keyPath'', ''multiEntry'', ''unique'', ''get'', ''getKey'', ''getAll'',
      ''getAllKeys'', ''count'', ''openCursor'', ''openKeyCursor'']"
| "std_members IDBCursor =
     [''source'', ''direction'', ''key'', ''primaryKey'', ''request'', ''advance'', ''continue'',
      ''continuePrimaryKey'', ''update'', ''delete'']"

text \<open>The state when the module has just been loaded: every cache is empty.\<close>

definition init :: "(nat \<Rightarrow> hobj) \<Rightarrow> nat \<Rightarrow> state" where
  "init objs n =
     \<lparr>nextId = n, transformCache = Map.empty, reverseTransformCache = Map.empty,
      idbProxyableTypes = [], cachedMethods = Map.empty, advanceResults = Map.empty,
      cursorFunctions = {}, transactionDoneMap = Map.empty, proxiedCursorLookup = Map.empty,
      promises = (\<lambda>p. Pending), handled = {}, hobjs = objs, protoMembers = std_members, hqueue = []\<rparr>"

definition no_obj :: hobj where
  "no_obj = \<lparr>hprops = [], hlisteners = [], hdata = NoData\<rparr>"

text \<open>
  A database (object 1) with the stores \<^verbatim>\<open>books\<close> (three records, one index) and
  \<^verbatim>\<open>authors\<close> (no record), a version-change transaction (object 2) of a database that
  has no store yet, and a request (object 0) that has not settled.
\<close>

definition demo_objs :: "nat \<Rightarrow> hobj" where
  "demo_objs =
     (\<lambda>i. no_obj)
       (0 := \<lparr>hprops = [(Name ''result'', Undefined), (Name ''error'', Null)],
              hlisteners = [], hdata = NoData\<rparr>,
        1 := \<lparr>hprops = [(Name ''name'', JStr ''library''), (Name ''version'', JNum 1),
                        (Name ''objectStoreNames'', StrList [''authors'', ''books''])],
              hlisteners = [],
              hdata = DbData [(''books'', [JNum 10, JNum 20, JNum 30], [(''byTitle'', [JNum 30, JNum 10, JNum 20])]),
                              (''authors'', [], [])]\<rparr>,
        2 := \<lparr>hprops = [(Name ''objectStoreNames'', StrList []), (Name ''mode'', JStr ''versionchange''),
                        (Name ''error'', Null)],
              hlisteners = [],
              hdata = TxnData 1 [] []\<rparr>)"

definition demo :: state where
  "demo = init demo_objs 3"


text \<open>A call depth that is enough for every run on this database.\<close>

definition deep :: nat where
  "deep = Suc (Suc (Suc (Suc (Suc (Suc (Suc (Suc 0)))))))"

text \<open>
  The wrapped database; a read-write transaction on \<^verbatim>\<open>books\<close> opened through it; a
  transaction on both stores; the wrapped version-change transaction.
\<close>

definition demo_db :: "val outcome" where
  "demo_db = wrap deep (Host IDBDatabase 1) demo"

definition demo_books_tx :: "val outcome" where
  "demo_books_tx =
     bind demo_db (\<lambda>db s. call_method (layer deep) db ''transaction'' [JStr ''books'', JStr ''readwrite''] s)"

definition demo_both_tx :: "val outcome" where
  "demo_both_tx =
     bind demo_db (\<lambda>db s. call_method (layer deep) db ''transaction'' [StrList [''authors'', ''books'']] s)"

definition demo_upgrade_tx :: "val outcome" where
  "demo_upgrade_tx = wrap deep (Host IDBTransaction 2) demo"

section \<open>Notions the statements use\<close>

text \<open>What a run answers, without the state it ends in.\<close>

datatype 'a reply = Returned 'a | Thrown val | NoAnswer

fun answer :: "'a outcome \<Rightarrow> 'a reply" where
  "answer (Return a s) = Returned a"
| "answer (Throw e s) = Thrown e"
| "answer Stuck = NoAnswer"

fun final :: "'a outcome \<Rightarrow> state \<Rightarrow> state" where
  "final (Return a s) d = s"
| "final (Throw e s) d = s"
| "final Stuck d = d"

text \<open>\<^verbatim>\<open>v[p]\<close> with the property first, to read a property of what a run returns.\<close>

definition read :: "nat \<Rightarrow> pkey \<Rightarrow> val \<Rightarrow> state \<Rightarrow> val outcome" where
  "read n p v s = get_prop n v p s"

text \<open>
  A raw host object is an event target when its \<^verbatim>\<open>addEventListener\<close> and
  \<^verbatim>\<open>removeEventListener\<close> are the native methods.
\<close>

definition event_target :: "state \<Rightarrow> kind \<Rightarrow> nat \<Rightarrow> bool" where
  "event_target s k i =
     (raw_get s k i (Name ''addEventListener'') = Fn 0 (Native k ''addEventListener'') \<and>
      raw_get s k i (Name ''removeEventListener'') = Fn 0 (Native k ''removeEventListener''))"

text \<open>The list of proxyable classes is empty or holds the three classes the source pushes.\<close>

definition types_ok :: "state \<Rightarrow> bool" where
  "types_ok s =
     (idbProxyableTypes s = [] \<or> idbProxyableTypes s = [IDBDatabase, IDBCursor, IDBTransaction])"

text \<open>No listener is registered on the host object for the listed event types.\<close>

definition quiet :: "state \<Rightarrow> nat \<Rightarrow> string list \<Rightarrow> bool" where
  "quiet s i tys = (\<forall>x \<in> set (hlisteners (hobjs s i)). fst x \<notin> set tys)"

text \<open>
  The listeners of a completion promise on its transaction, and the state after the
  first \<^verbatim>\<open>wrap\<close> of a raw transaction: a pending promise, its three listeners, the entry
  in \<^verbatim>\<open>transactionDoneMap\<close>, the proxy and the two cache entries.
\<close>

definition done_listeners :: "nat \<Rightarrow> val \<Rightarrow> hobj \<Rightarrow> hobj" where
  "done_listeners p t h =
     listen ''abort'' (Fn p (TxError p t))
       (listen ''error'' (Fn p (TxError p t))
          (listen ''complete'' (Fn p (TxComplete p t)) h))"


text \<open>
  The state after \<^verbatim>\<open>promisifyRequest\<close> on a raw request: a pending promise, its two
  listeners on the request, and the entry of the reverse cache from the promise to the
  request.
\<close>

definition promisified :: "nat \<Rightarrow> state \<Rightarrow> state" where
  "promisified r s =
     s\<lparr>nextId := Suc (nextId s), promises := (promises s)(nextId s := Pending),
       hobjs := (hobjs s)
         (r := listen ''error'' (Fn (nextId s) (ReqError (nextId s) (Host IDBRequest r)))
                 (listen ''success'' (Fn (nextId s) (ReqSuccess (nextId s) (Host IDBRequest r))) (hobjs s r))),
       reverseTransformCache := (reverseTransformCache s)(Promise (nextId s) \<mapsto> Host IDBRequest r)\<rparr>"

text \<open>The forward cache and the reverse cache agree.\<close>

definition caches_agree :: "state \<Rightarrow> bool" where
  "caches_agree s =
     (\<forall>v w. transformCache s v = Some w \<longrightarrow> isObject w \<and> reverseTransformCache s w = Some v)"

text \<open>The state after the cursor iteration handler has cached the stub of an advance method.\<close>

definition stub_cached :: "string \<Rightarrow> state \<Rightarrow> state" where
  "stub_cached nm s =
     (if cachedMethods s nm = None
      then s\<lparr>nextId := Suc (nextId s),
             cachedMethods := (cachedMethods s)(nm \<mapsto> Fn (nextId s) (AdvanceStub nm))\<rparr>
      else s)"

text \<open>
  The wrapped store of the transaction on \<^verbatim>\<open>books\<close>; the wrapped cursor that
  \<^verbatim>\<open>iterate\<close> opens on it; the proxy the iteration yields and the state in which the loop
  starts; the state after the consumer has called \<^verbatim>\<open>advance(2)\<close> on that proxy.
\<close>

definition demo_store :: "val outcome" where
  "demo_store = bind demo_books_tx (read deep (Name ''store''))"

definition demo_cursor :: "val outcome" where
  "demo_cursor = bind demo_store (\<lambda>store s. iterate_open (layer deep) (Suc 0) store [] s)"

definition demo_pc :: val where
  "demo_pc = Proxy 16 CursorIteratorTraps (Proxy 15 IdbProxyTraps (Host IDBCursor 13))"

definition demo_iter :: state where
  "demo_iter = register_proxy (Proxy 15 IdbProxyTraps (Host IDBCursor 13)) (final demo_cursor demo)"

definition demo_advanced :: state where
  "demo_advanced = final (consume (layer deep) [(''advance'', [JNum 2])] demo_pc demo_iter) demo"

text \<open>
  The native \<^verbatim>\<open>continue\<close> of a cursor; the function the get trap of a wrapped cursor
  answers for it, and the state after that trap: the native method is in
  \<^verbatim>\<open>cursorFunctions\<close> and its wrapper is cached.
\<close>

definition continue_fn :: val where
  "continue_fn = Fn 0 (Native IDBCursor ''continue'')"

definition continue_wrapper :: "state \<Rightarrow> val" where
  "continue_wrapper s =
     (case transformCache s continue_fn of None \<Rightarrow> Fn (nextId s) (WrappedCursorFn continue_fn) | Some w \<Rightarrow> w)"

definition continue_wrapped :: "state \<Rightarrow> state" where
  "continue_wrapped s =
     (case transformCache s continue_fn of
        None \<Rightarrow>
          s\<lparr>cursorFunctions := insert continue_fn (cursorFunctions s), nextId := Suc (nextId s),
            transformCache := (transformCache s)(continue_fn \<mapsto> Fn (nextId s) (WrappedCursorFn continue_fn)),
            reverseTransformCache := (reverseTransformCache s)
              (Fn (nextId s) (WrappedCursorFn continue_fn) \<mapsto> continue_fn)\<rparr>
      | Some w \<Rightarrow> s\<lparr>cursorFunctions := insert continue_fn (cursorFunctions s)\<rparr>)"

text \<open>
  The event a cursor's request receives after the cursor was advanced by one, with the
  records \<open>rest\<close> still ahead of it, and the state of the host after that advance.
\<close>

definition next_event :: "nat \<Rightarrow> nat \<Rightarrow> val list \<Rightarrow> event" where
  "next_event c r rest =
     (Host IDBRequest r, ''success'',
      case rest of [] \<Rightarrow> [(r, Name ''result'', Null)]
      | y # ys \<Rightarrow> [(c, Name ''value'', y), (r, Name ''result'', Host IDBCursor c)])"

definition advanced :: "nat \<Rightarrow> nat \<Rightarrow> val list \<Rightarrow> state \<Rightarrow> state" where
  "advanced c r rest s =
     enqueue (next_event c r rest) (set_hdata c (CursorData (Host IDBRequest r) (tl rest)) s)"

text \<open>
  The state between two passes of an iteration over the raw cursor \<open>c\<close> of the request \<open>r\<close>,
  wrapped as proxy \<open>j\<close> and yielded as the iteration proxy \<open>q\<close>: the cursor stands on the
  record \<open>x\<close> with the records \<open>rest\<close> ahead, no event is waiting, the request has no
  listener, the caches hold the cursor and its proxies, and no advance is stashed.
\<close>

definition cursor_inv :: "state \<Rightarrow> nat \<Rightarrow> nat \<Rightarrow> nat \<Rightarrow> nat \<Rightarrow> val \<Rightarrow> val list \<Rightarrow> bool" where
  "cursor_inv s c r j q x rest =
     (c \<noteq> r \<and>
      hdata (hobjs s c) = CursorData (Host IDBRequest r) rest \<and>
      raw_get s IDBCursor c (Name ''value'') = x \<and>
      raw_get s IDBCursor c (Name ''request'') = Host IDBRequest r \<and>
      raw_get s IDBCursor c (Name ''continue'') = continue_fn \<and>
      event_target s IDBRequest r \<and>
      hlisteners (hobjs s r) = [] \<and>
      hqueue s = [] \<and>
      transformCache s (Host IDBCursor c) = Some (Proxy j IdbProxyTraps (Host IDBCursor c)) \<and>
      reverseTransformCache s (Proxy j IdbProxyTraps (Host IDBCursor c)) = Some (Host IDBCursor c) \<and>
      reverseTransformCache s (Proxy q CursorIteratorTraps (Proxy j IdbProxyTraps (Host IDBCursor c))) =
        Some (Host IDBCursor c) \<and>
      (transformCache s continue_fn = None \<or>
       (\<exists>a. transformCache s continue_fn = Some (Fn a (WrappedCursorFn continue_fn)))) \<and>
      (\<forall>p. transformCache s (Promise p) = None) \<and>
      advanceResults s (Proxy q CursorIteratorTraps (Proxy j IdbProxyTraps (Host IDBCursor c))) = None \<and>
      idbProxyableTypes s = [IDBDatabase, IDBCursor, IDBTransaction])"

text \<open>
  A wrapped store or index (proxy \<open>j\<close> of the raw object \<open>i\<close> of class \<open>k\<close>) holding the
  records \<open>recs\<close>, in a state where an iteration can start: \<^verbatim>\<open>openCursor\<close> is the native
  method, requests are event targets, cursors have the native \<^verbatim>\<open>continue\<close>, no event is
  waiting, and the caches know nothing of objects that do not exist yet.
\<close>

definition store_ready :: "state \<Rightarrow> kind \<Rightarrow> nat \<Rightarrow> nat \<Rightarrow> val list \<Rightarrow> bool" where
  "store_ready s k i j recs =
     ((k = IDBObjectStore \<or> k = IDBIndex) \<and>
      ((\<exists>idx made. hdata (hobjs s i) = StoreData recs idx made) \<or> hdata (hobjs s i) = IndexData recs) \<and>
      raw_get s k i (Name ''openCursor'') = Fn 0 (Native k ''openCursor'') \<and>
      reverseTransformCache s (Proxy j IdbProxyTraps (Host k i)) = Some (Host k i) \<and>
      hqueue s = [] \<and>
      idbProxyableTypes s = [IDBDatabase, IDBCursor, IDBTransaction] \<and>
      ''addEventListener'' \<in> set (protoMembers s IDBRequest) \<and>
      ''removeEventListener'' \<in> set (protoMembers s IDBRequest) \<and>
      ''continue'' \<in> set (protoMembers s IDBCursor) \<and>
      ((transformCache s (Fn 0 (Native k ''openCursor'')) = None \<and>
        Fn 0 (Native k ''openCursor'') \<notin> cursorFunctions s) \<or>
       (\<exists>a. transformCache s (Fn 0 (Native k ''openCursor'')) =
              Some (Fn a (WrappedFn (Fn 0 (Native k ''openCursor'')))))) \<and>
      (transformCache s continue_fn = None \<or>
       (\<exists>a. transformCache s continue_fn = Some (Fn a (WrappedCursorFn continue_fn)))) \<and>
      (\<forall>p. transformCache s (Promise p) = None) \<and>
      (\<forall>k' i'. nextId s \<le> i' \<longrightarrow> transformCache s (Host k' i') = None) \<and>
      (\<forall>i' h v. nextId s \<le> i' \<longrightarrow> advanceResults s (Proxy i' h v) = None))"

text \<open>
  The state after the get trap of a wrapped store has answered \<^verbatim>\<open>openCursor\<close>; the request
  \<^verbatim>\<open>openCursor\<close> creates, the event it will receive, and the state of the host after the
  call.
\<close>

definition open_wrapped :: "kind \<Rightarrow> state \<Rightarrow> state" where
  "open_wrapped k s =
     (case transformCache s (Fn 0 (Native k ''openCursor'')) of
        None \<Rightarrow>
          s\<lparr>nextId := Suc (nextId s),
            transformCache := (transformCache s)
              (Fn 0 (Native k ''openCursor'') \<mapsto> Fn (nextId s) (WrappedFn (Fn 0 (Native k ''openCursor'')))),
            reverseTransformCache := (reverseTransformCache s)
              (Fn (nextId s) (WrappedFn (Fn 0 (Native k ''openCursor''))) \<mapsto> Fn 0 (Native k ''openCursor''))\<rparr>
      | Some w \<Rightarrow> s)"

definition open_request :: "kind \<Rightarrow> nat \<Rightarrow> hobj" where
  "open_request k i =
     \<lparr>hprops = [(Name ''result'', Undefined), (Name ''error'', Null), (Name ''source'', Host k i)],
      hlisteners = [], hdata = NoData\<rparr>"

definition open_event :: "nat \<Rightarrow> val list \<Rightarrow> event" where
  "open_event r recs =
     (Host IDBRequest r, ''success'',
      case recs of [] \<Rightarrow> [(r, Name ''result'', Null)]
      | x # xs \<Rightarrow> [(Suc r, Name ''value'', x), (r, Name ''result'', Host IDBCursor (Suc r))])"

definition opened :: "kind \<Rightarrow> nat \<Rightarrow> val list \<Rightarrow> state \<Rightarrow> state" where
  "opened k i recs s =
     (case recs of
        [] \<Rightarrow>
          s\<lparr>nextId := Suc (nextId s),
            hobjs := (hobjs s)(nextId s := open_request k i),
            hqueue := hqueue s @ [open_event (nextId s) recs]\<rparr>
      | x # xs \<Rightarrow>
          s\<lparr>nextId := Suc (Suc (nextId s)),
            hobjs := (hobjs s)
              (nextId s := open_request k i,
               Suc (nextId s) :=
                 \<lparr>hprops = [(Name ''request'', Host IDBRequest (nextId s)), (Name ''source'', Host k i)],
                  hlisteners = [], hdata = CursorData (Host IDBRequest (nextId s)) xs\<rparr>),
            hqueue := hqueue s @ [open_event (nextId s) recs]\<rparr>)"

section \<open>Basic facts about the model\<close>

lemmas prims = add_listener_def remove_listener_def resolve_def reject_def raw_get_def raw_has_def
  set_hprop_def set_hdata_def enqueue_def new_host_def

lemma listen_frame [simp]:
  "hprops (listen ty l h) = hprops h"
  "hdata (listen ty l h) = hdata h"
  "hprops (unlisten ty l h) = hprops h"
  "hdata (unlisten ty l h) = hdata h"
  by (simp_all add: listen_def unlisten_def)

declare layer.simps [simp del]

lemma layer_Suc [simp]:
  "l_get_prop (layer (Suc n)) = get_prop_body (layer n)"
  "l_has_prop (layer (Suc n)) = has_prop_body (layer n)"
  "l_call (layer (Suc n)) = call_body (layer n)"
  "l_wrap (layer (Suc n)) = wrap_body (layer n)"
  by (simp_all add: layer.simps)

lemma layer_0 [simp]:
  "l_get_prop (layer 0) v p s = Stuck"
  "l_has_prop (layer 0) p v s = Stuck"
  "l_call (layer 0) f this args s = Stuck"
  "l_wrap (layer 0) v s = Stuck"
  by (simp_all add: layer.simps)

lemma get_prop_host [simp]:
  "get_prop_body L (Host k i) p s = Return (raw_get s k i p) s"
  by (simp add: get_prop_body_def)

lemma has_prop_host [simp]:
  "has_prop_body L p (Host k i) s = Return (raw_has s k i p) s"
  by (simp add: has_prop_body_def)

lemma get_prop_proxy [simp]:
  "get_prop_body L (Proxy j IdbProxyTraps t) p s = idbProxyTraps_get L t p (Proxy j IdbProxyTraps t) s"
  "get_prop_body L (Proxy j CursorIteratorTraps t) p s = cursorIteratorTraps_get L t p s"
  by (simp_all add: get_prop_body_def)

lemma call_native [simp]:
  "call_body L (Fn j (Native k nm)) this args s = host_call k nm this args s"
  by (simp add: call_body_def call_closure_def)

lemma getMethod_other [simp]:
  "\<not> instanceof target IDBDatabase \<Longrightarrow> getMethod L target p s = Return Undefined s"
  by (simp add: getMethod_def)

lemma Proxy_neq [simp]: "Proxy i h v \<noteq> v" "v \<noteq> Proxy i h v"
proof -
  show "Proxy i h v \<noteq> v"
  proof
    assume "Proxy i h v = v"
    then have "size (Proxy i h v) = size v" by simp
    then show False by simp
  qed
  then show "v \<noteq> Proxy i h v" by (rule not_sym)
qed

lemma WrappedFn_neq [simp]: "Fn i (WrappedFn f) \<noteq> f" "Fn i (WrappedCursorFn f) \<noteq> f"
proof -
  show "Fn i (WrappedFn f) \<noteq> f"
  proof
    assume "Fn i (WrappedFn f) = f"
    then have "size (Fn i (WrappedFn f)) = size f" by simp
    then show False by simp
  qed
  show "Fn i (WrappedCursorFn f) \<noteq> f"
  proof
    assume "Fn i (WrappedCursorFn f) = f"
    then have "size (Fn i (WrappedCursorFn f)) = size f" by simp
    then show False by simp
  qed
qed

lemma obj_get_absent: "\<not> obj_has ms ps p \<Longrightarrow> obj_get ms k ps p = Undefined"
  by (cases p) (auto simp add: obj_has_def obj_get_def)

lemma isProxyable_ready:
  "idbProxyableTypes s = [IDBDatabase, IDBCursor, IDBTransaction] \<Longrightarrow>
   isProxyable v s =
     (isStoreLike v \<or> instanceof v IDBDatabase \<or> instanceof v IDBCursor \<or> instanceof v IDBTransaction, s)"
  by (simp add: isProxyable_def)

lemma instanceof_object: "instanceof v c \<Longrightarrow> isObject v"
  by (cases v) simp_all

lemma strict_neq_object [simp]: "isObject a \<Longrightarrow> strict_neq a b = (a \<noteq> b)"
  by (auto simp add: strict_neq_def)

lemma strict_neq_same [simp]: "strict_neq a a = (a = JNaN)"
  by (simp add: strict_neq_def)

lemma wrap_Undefined [simp]:
  "wrap_body L Undefined s = Return Undefined (snd (isProxyable Undefined s))"
  by (simp add: wrap_body_def wm_has_def transformCachableValue_def make_done_def isProxyable_def
        isStoreLike_def Let_def list_ex_iff)

lemma wrap_NaN:
  "wrap_body L JNaN s = Throw TypeError (snd (isProxyable JNaN s))"
  by (simp add: wrap_body_def wm_has_def transformCachableValue_def make_done_def isProxyable_def
        isStoreLike_def Let_def list_ex_iff)

lemma wrap_cached:
  "transformCache s v = Some w \<Longrightarrow> isObject v \<Longrightarrow> \<not> instanceof v IDBRequest \<Longrightarrow>
   wrap_body L v s = Return w s"
  by (simp add: wrap_body_def wm_has_def wm_get_def)

lemma wrap_function_new:
  "transformCache s (Fn a g) = None \<Longrightarrow>
   wrap_body L (Fn a g) s =
     Return (Fn (nextId s) (if Fn a g \<in> cursorFunctions s then WrappedCursorFn (Fn a g) else WrappedFn (Fn a g)))
       (s\<lparr>nextId := Suc (nextId s),
          transformCache := (transformCache s)
            (Fn a g \<mapsto> Fn (nextId s) (if Fn a g \<in> cursorFunctions s then WrappedCursorFn (Fn a g) else WrappedFn (Fn a g))),
          reverseTransformCache := (reverseTransformCache s)
            (Fn (nextId s) (if Fn a g \<in> cursorFunctions s then WrappedCursorFn (Fn a g) else WrappedFn (Fn a g)) \<mapsto> Fn a g)\<rparr>)"
  by (simp add: wrap_body_def wm_has_def transformCachableValue_def wrapFunction_def)

lemma wrap_plain:
  "\<not> isFunction v \<Longrightarrow> \<not> instanceof v IDBTransaction \<Longrightarrow> \<not> instanceof v IDBRequest \<Longrightarrow>
   \<not> wm_has (transformCache s) v \<Longrightarrow> v \<noteq> JNaN \<Longrightarrow>
   wrap_body L v s =
     (if fst (isProxyable v s)
      then Return (Proxy (nextId s) IdbProxyTraps v)
             ((snd (isProxyable v s))
                \<lparr>nextId := Suc (nextId s),
                 transformCache := (transformCache s)(v \<mapsto> Proxy (nextId s) IdbProxyTraps v),
                 reverseTransformCache := (reverseTransformCache s)(Proxy (nextId s) IdbProxyTraps v \<mapsto> v)\<rparr>)
      else Return v (snd (isProxyable v s)))"
  by (auto simp add: wrap_body_def transformCachableValue_def make_done_def isProxyable_def Let_def
        isStoreLike_def list_ex_iff instanceof_object)

lemma advance_names:
  "nm \<in> set advanceMethods \<Longrightarrow>
   stripFromIndex nm = nm \<and> nm \<notin> set readMethods \<and> nm \<notin> set writeMethods"
  by (auto simp add: advanceMethods_def readMethods_def writeMethods_def stripFromIndex_def)

lemma event_target_same:
  "event_target s k i \<Longrightarrow> hprops (hobjs s' i) = hprops (hobjs s i) \<Longrightarrow> protoMembers s' = protoMembers s \<Longrightarrow>
   event_target s' k i"
  by (simp add: event_target_def raw_get_def)

lemma addEventListener_host:
  "event_target s k i \<Longrightarrow>
   call_method (layer (Suc n)) (Host k i) ''addEventListener'' [JStr ty, Fn j g] s =
     Return Undefined (add_listener i ty (Fn j g) s)"
  by (simp add: call_method_def event_target_def host_call_def host_addEventListener_def)

lemma removeEventListener_host:
  "event_target s k i \<Longrightarrow>
   call_method (layer (Suc n)) (Host k i) ''removeEventListener'' [JStr ty, l] s =
     Return Undefined (remove_listener i ty l s)"
  by (simp add: call_method_def event_target_def host_call_def host_removeEventListener_def)

lemma make_done_first:
  assumes "event_target s IDBTransaction i" "transactionDoneMap s (Host IDBTransaction i) = None"
  shows "make_done (layer (Suc (Suc n))) (Host IDBTransaction i) s =
     Some (s\<lparr>nextId := Suc (nextId s), promises := (promises s)(nextId s := Pending),
             hobjs := (hobjs s)(i := done_listeners (nextId s) (Host IDBTransaction i) (hobjs s i)),
             transactionDoneMap := (transactionDoneMap s)(Host IDBTransaction i \<mapsto> Promise (nextId s))\<rparr>)"
proof -
  have et: "\<And>s'. hprops (hobjs s' i) = hprops (hobjs s i) \<Longrightarrow> protoMembers s' = protoMembers s
     \<Longrightarrow> event_target s' IDBTransaction i"
    using assms(1) by (rule event_target_same)
  show ?thesis
    using assms(2)
    by (simp add: make_done_def wm_has_def addEventListener_host et executor_done_def done_listeners_def
         add_listener_def)
qed



lemma quiet_filter:
  assumes "quiet s i tys" "ty \<in> set tys"
  shows "filter (\<lambda>x. fst x = ty) (hlisteners (hobjs s i)) = []"
        "removeAll (ty, l) (hlisteners (hobjs s i)) = hlisteners (hobjs s i)"
proof -
  show "filter (\<lambda>x. fst x = ty) (hlisteners (hobjs s i)) = []"
    using assms by (auto simp add: quiet_def filter_empty_conv)
  have "(ty, l) \<notin> set (hlisteners (hobjs s i))"
    using assms by (auto simp add: quiet_def)
  then show "removeAll (ty, l) (hlisteners (hobjs s i)) = hlisteners (hobjs s i)"
    by (rule removeAll_id)
qed

lemma promisifyRequest_host:
  assumes "event_target s IDBRequest r"
  shows "promisifyRequest (layer (Suc (Suc n))) (Host IDBRequest r) s =
           Return (Promise (nextId s)) (promisified r s)"
proof -
  have et: "\<And>s'. hprops (hobjs s' r) = hprops (hobjs s r) \<Longrightarrow> protoMembers s' = protoMembers s
     \<Longrightarrow> event_target s' IDBRequest r"
    using assms by (rule event_target_same)
  show ?thesis
    by (simp add: promisifyRequest_def addEventListener_host et executor_done_def promisified_def
         add_listener_def)
qed

lemma wrap_plain_frame:
  assumes "\<not> isFunction v" "\<not> instanceof v IDBTransaction" "\<not> instanceof v IDBRequest" "v \<noteq> JNaN"
  shows "\<exists>w s'. wrap_body L v s = Return w s' \<and> hobjs s' = hobjs s \<and> protoMembers s' = protoMembers s \<and>
           promises s' = promises s \<and> hqueue s' = hqueue s \<and> handled s' = handled s \<and>
           advanceResults s' = advanceResults s \<and> cachedMethods s' = cachedMethods s \<and>
           proxiedCursorLookup s' = proxiedCursorLookup s \<and> cursorFunctions s' = cursorFunctions s \<and>
           transactionDoneMap s' = transactionDoneMap s"
proof (cases "wm_has (transformCache s) v")
  case True
  then show ?thesis
    using assms by (simp add: wrap_body_def)
next
  case False
  then show ?thesis
    using assms by (simp add: wrap_plain isProxyable_def Let_def)
qed

lemma make_done_known:
  "transactionDoneMap s v = Some p \<Longrightarrow> isObject v \<Longrightarrow> make_done L v s = Some s"
  by (simp add: make_done_def wm_has_def)

lemma make_done_other:
  "\<not> instanceof v IDBTransaction \<Longrightarrow> make_done L v s = Some s"
  by (simp add: make_done_def)

lemma bind_assoc: "bind (bind m f) g = bind m (\<lambda>a s. bind (f a s) g)"
  by (cases m) simp_all

lemma bind_Return [simp]: "bind m Return = m"
  by (cases m) simp_all

lemma consume_append:
  "consume L (cs @ ds) pc s = bind (consume L cs pc s) (\<lambda>u s1. consume L ds pc s1)"
proof (induction cs arbitrary: s)
  case Nil
  show ?case by simp
next
  case (Cons c cs)
  have "consume L (cs @ ds) pc = (\<lambda>s. bind (consume L cs pc s) (\<lambda>u s1. consume L ds pc s1))"
    using Cons.IH by (simp add: fun_eq_iff)
  then show ?case
    by (simp add: bind_assoc)
qed

lemma stub_call:
  assumes "nm \<in> set advanceMethods"
      and "proxiedCursorLookup s (Proxy j CursorIteratorTraps c0) = Some c"
      and "cachedMethods s nm = None \<or> (\<exists>a. cachedMethods s nm = Some (Fn a (AdvanceStub nm)))"
  shows "call_method (layer (Suc (Suc n))) (Proxy j CursorIteratorTraps c0) nm args s =
           bind (call_method (layer (Suc n)) c nm args (stub_cached nm s)) (\<lambda>result s3.
             Return Undefined
               (s3\<lparr>advanceResults := (advanceResults s3)(Proxy j CursorIteratorTraps c0 \<mapsto> result)\<rparr>))"
  using assms
  by (auto simp add: call_method_def cursorIteratorTraps_get_def stub_cached_def map_get_def
        call_body_def call_closure_def wm_get_def Let_def bind_assoc)

text \<open>The equations that run the model on a concrete state.\<close>

lemmas run_defs = deep_def demo_db_def demo_books_tx_def demo_both_tx_def demo_upgrade_tx_def
  demo_def init_def demo_objs_def no_obj_def
  wrap_body_def transformCachableValue_def make_done_def promisifyRequest_def wrapFunction_def
  isProxyable_def isStoreLike_def isIteratorProp_def executor_done_def
  call_method_def call_body_def call_closure_def getMethod_def idbProxyTraps_get_def tx_store_def
  cursorIteratorTraps_get_def idbProxyTraps_has_def
  host_call_def host_addEventListener_def host_removeEventListener_def host_transaction_def
  host_objectStore_def host_index_def host_operation_def host_openCursor_def host_advance_def
  prims obj_get_def obj_has_def listen_def unlisten_def settle_def
  wm_has_def wm_get_def map_get_def unwrap_def elem_def stripFromIndex_def strict_neq_def
  readMethods_def writeMethods_def advanceMethods_def read_def Let_def
  demo_store_def demo_cursor_def demo_pc_def demo_iter_def demo_advanced_def stub_cached_def
  iterate_open_def iterate_pass_def iterate_def iteration_proxy_def register_proxy_def position_def
  advance_intent_def await_def await_all_def settled_def all_settled_def observe_def
  dispatch_def apply_updates_def listeners_for_def registered_def shorthand_start_def shorthand_def

section \<open>Shorthand synthesis and the properties of the database\<close>

text \<open>
  C9. Shorthand synthesis never shadows a property of the database. For every property
  key (a name or a symbol) present on the raw database object, \<^verbatim>\<open>getMethod\<close> returns
  \<^verbatim>\<open>undefined\<close> and leaves the state as it is, whatever the cache of methods holds, and
  reading the property on the wrapped database is \<^verbatim>\<open>wrap\<close> applied to the native value.
\<close>

theorem getMethod_never_shadows:
  assumes "raw_has s IDBDatabase i p"
  shows "getMethod (layer (Suc n)) (Host IDBDatabase i) p s = Return Undefined s \<and>
         get_prop (Suc (Suc n)) (Proxy j IdbProxyTraps (Host IDBDatabase i)) p s =
           wrap (Suc n) (raw_get s IDBDatabase i p) s"
proof -
  have absent: "getMethod (layer (Suc n)) (Host IDBDatabase i) p s = Return Undefined s"
    using assms by (cases p) (simp_all add: getMethod_def)
  have no_iter: "\<not> isIteratorProp (Host IDBDatabase i) p"
    by (simp add: isIteratorProp_def isStoreLike_def)
  have "idbProxyTraps_get (layer (Suc n)) (Host IDBDatabase i) p (Proxy j IdbProxyTraps (Host IDBDatabase i)) s =
          wrap (Suc n) (raw_get s IDBDatabase i p) s"
    using absent no_iter by (cases p) (simp_all add: idbProxyTraps_get_def)
  then show ?thesis
    using absent by simp
qed

theorem getMethod_never_shadows_witness:
  "raw_has demo IDBDatabase 1 (Name ''transaction'') \<and>
   getMethod (layer (Suc 0)) (Host IDBDatabase 1) (Name ''transaction'') demo = Return Undefined demo \<and>
   get_prop (Suc (Suc 0)) (Proxy 3 IdbProxyTraps (Host IDBDatabase 1)) (Name ''transaction'') demo =
     wrap (Suc 0) (raw_get demo IDBDatabase 1 (Name ''transaction'')) demo"
proof -
  have present: "raw_has demo IDBDatabase 1 (Name ''transaction'')"
    by (simp add: demo_def init_def demo_objs_def raw_has_def obj_has_def)
  show ?thesis
    using present getMethod_never_shadows [OF present, of 0 3] by simp
qed


text \<open>
  C10. The advance stubs of the cursor iteration handler and the shorthand methods of the
  database share the cache \<^verbatim>\<open>cachedMethods\<close>. For an advance-method name that the
  database has no property of and the cache no entry for: reading the property through
  the cursor iteration handler caches a stub under the name; reading the same name on the
  wrapped database then returns that stub, where before it returned \<^verbatim>\<open>undefined\<close>; and the
  name is in neither allow-list.
\<close>

theorem advance_stub_reaches_database:
  assumes "nm \<in> set advanceMethods"
      and "\<not> raw_has s IDBDatabase i (Name nm)"
      and "cachedMethods s nm = None"
  shows "cursorIteratorTraps_get L c (Name nm) s =
           Return (Fn (nextId s) (AdvanceStub nm))
             (s\<lparr>nextId := Suc (nextId s),
                cachedMethods := (cachedMethods s)(nm \<mapsto> Fn (nextId s) (AdvanceStub nm))\<rparr>) \<and>
         get_prop (Suc (Suc n)) (Proxy j IdbProxyTraps (Host IDBDatabase i)) (Name nm)
             (s\<lparr>nextId := Suc (nextId s),
                cachedMethods := (cachedMethods s)(nm \<mapsto> Fn (nextId s) (AdvanceStub nm))\<rparr>) =
           Return (Fn (nextId s) (AdvanceStub nm))
             (s\<lparr>nextId := Suc (nextId s),
                cachedMethods := (cachedMethods s)(nm \<mapsto> Fn (nextId s) (AdvanceStub nm))\<rparr>) \<and>
         get_prop (Suc (Suc n)) (Proxy j IdbProxyTraps (Host IDBDatabase i)) (Name nm) s =
           Return Undefined (snd (isProxyable Undefined s)) \<and>
         stripFromIndex nm \<notin> set readMethods \<and> stripFromIndex nm \<notin> set writeMethods"
proof -
  let ?db = "Host IDBDatabase i"
  let ?stub = "Fn (nextId s) (AdvanceStub nm)"
  let ?s1 = "s\<lparr>nextId := Suc (nextId s), cachedMethods := (cachedMethods s)(nm \<mapsto> ?stub)\<rparr>"
  note names = advance_names [OF assms(1)]
  have no_iter: "\<not> isIteratorProp ?db (Name nm)"
    by (simp add: isIteratorProp_def isStoreLike_def)
  have absent1: "\<not> raw_has ?s1 IDBDatabase i (Name nm)"
    using assms(2) by (simp add: raw_has_def)
  have cached: "cursorIteratorTraps_get L c (Name nm) s = Return ?stub ?s1"
    using assms(1,3) by (simp add: cursorIteratorTraps_get_def map_get_def)
  have hit: "getMethod (layer (Suc n)) ?db (Name nm) ?s1 = Return ?stub ?s1"
    using absent1 by (simp add: getMethod_def map_get_def)
  have leak: "get_prop (Suc (Suc n)) (Proxy j IdbProxyTraps ?db) (Name nm) ?s1 = Return ?stub ?s1"
    using no_iter hit by (simp add: idbProxyTraps_get_def)
  have miss: "getMethod (layer (Suc n)) ?db (Name nm) s = Return Undefined s"
    using assms(2,3) names by (simp add: getMethod_def Let_def)
  have undef: "raw_get s IDBDatabase i (Name nm) = Undefined"
    using assms(2) by (simp add: raw_get_def raw_has_def obj_get_absent)
  have before: "get_prop (Suc (Suc n)) (Proxy j IdbProxyTraps ?db) (Name nm) s =
      Return Undefined (snd (isProxyable Undefined s))"
    using no_iter miss undef by (simp add: idbProxyTraps_get_def)
  show ?thesis
    using cached leak before names by simp
qed

theorem advance_stub_reaches_database_witness:
  "''advance'' \<in> set advanceMethods \<and>
   \<not> raw_has demo IDBDatabase 1 (Name ''advance'') \<and>
   cachedMethods demo ''advance'' = None \<and>
   cursorIteratorTraps_get (layer 1) (Proxy 8 IdbProxyTraps (Host IDBCursor 7)) (Name ''advance'') demo =
     Return (Fn 3 (AdvanceStub ''advance''))
       (demo\<lparr>nextId := 4, cachedMethods := [''advance'' \<mapsto> Fn 3 (AdvanceStub ''advance'')]\<rparr>) \<and>
   get_prop 2 (Proxy 5 IdbProxyTraps (Host IDBDatabase 1)) (Name ''advance'')
       (demo\<lparr>nextId := 4, cachedMethods := [''advance'' \<mapsto> Fn 3 (AdvanceStub ''advance'')]\<rparr>) =
     Return (Fn 3 (AdvanceStub ''advance''))
       (demo\<lparr>nextId := 4, cachedMethods := [''advance'' \<mapsto> Fn 3 (AdvanceStub ''advance'')]\<rparr>)"
proof -
  have a: "''advance'' \<in> set advanceMethods"
    by (simp add: advanceMethods_def)
  have b: "\<not> raw_has demo IDBDatabase 1 (Name ''advance'')"
    by (simp add: demo_def init_def demo_objs_def raw_has_def obj_has_def)
  have c: "cachedMethods demo ''advance'' = None"
    by (simp add: demo_def init_def)
  have d: "nextId demo = 3" "cachedMethods demo = Map.empty"
    by (simp_all add: demo_def init_def)
  show ?thesis
    using a b c advance_stub_reaches_database [OF a b c, of "layer 1" "Proxy 8 IdbProxyTraps (Host IDBCursor 7)" 0 5]
    by (simp add: d numeral_2_eq_2)
qed


text \<open>
  C8 fails on the code where C10 holds: once the stub of \<^verbatim>\<open>continue\<close> is cached, the
  wrapped database answers the name \<^verbatim>\<open>continue\<close>, which is in neither allow-list, with
  a function; from the state of a freshly loaded module it answers \<^verbatim>\<open>undefined\<close>.
\<close>

theorem shorthand_outside_allow_list:
  "''continue'' \<notin> set readMethods \<and> ''continue'' \<notin> set writeMethods \<and>
   answer (bind (cursorIteratorTraps_get (layer 1) (Proxy 8 IdbProxyTraps (Host IDBCursor 7)) (Name ''continue'') demo)
            (\<lambda>stub. read 2 (Name ''continue'') (Proxy 5 IdbProxyTraps (Host IDBDatabase 1)))) =
     Returned (Fn 3 (AdvanceStub ''continue'')) \<and>
   answer (read 2 (Name ''continue'') (Proxy 5 IdbProxyTraps (Host IDBDatabase 1)) demo) = Returned Undefined"
  by (simp add: readMethods_def writeMethods_def advanceMethods_def cursorIteratorTraps_get_def read_def
        numeral_2_eq_2 idbProxyTraps_get_def isIteratorProp_def isStoreLike_def getMethod_def
        demo_def init_def demo_objs_def raw_has_def obj_has_def map_get_def stripFromIndex_def
        raw_get_def obj_get_def Let_def isProxyable_def list_ex_iff)


section \<open>The store of a transaction\<close>

lemma names_read:
  assumes "raw_get s IDBTransaction i (Name ''objectStoreNames'') = StrList names"
      and "transformCache s (StrList names) = None"
      and "idbProxyableTypes s = [IDBDatabase, IDBCursor, IDBTransaction]"
  shows "idbProxyTraps_get (layer (Suc (Suc n))) (Host IDBTransaction i) (Name ''objectStoreNames'') W s =
           Return (StrList names) s"
  using assms
  by (simp add: idbProxyTraps_get_def isIteratorProp_def advanceMethods_def wrap_plain wm_has_def
        isProxyable_ready isStoreLike_def)


text \<open>
  Where the property \<^verbatim>\<open>store\<close> does what its comment in the source says. On a wrapped
  transaction whose list of store names is an ordinary value that was never cached: when
  exactly one name is listed, the property is what wrapping the store that the host's
  \<^verbatim>\<open>objectStore\<close> returns for that name gives; when two or more are listed, it is
  \<^verbatim>\<open>undefined\<close> and the state is unchanged. The source tests the second name for
  truthiness, so the second name must not be the empty name: a host lists the names of a
  scope in ascending order and without repetition, where only the first can be empty.
\<close>

lemma tx_store_one_or_many:
  assumes names: "raw_get s IDBTransaction i (Name ''objectStoreNames'') = StrList names"
      and plain: "transformCache s (StrList names) = None"
      and types: "idbProxyableTypes s = [IDBDatabase, IDBCursor, IDBTransaction]"
      and native: "raw_get s IDBTransaction i (Name ''objectStore'') = Fn 0 (Native IDBTransaction ''objectStore'')"
      and wrapped: "reverseTransformCache s (Proxy j IdbProxyTraps (Host IDBTransaction i)) = Some (Host IDBTransaction i)"
      and cache: "(transformCache s (Fn 0 (Native IDBTransaction ''objectStore'')) = None \<and>
                   Fn 0 (Native IDBTransaction ''objectStore'') \<notin> cursorFunctions s) \<or>
                  (\<exists>a. transformCache s (Fn 0 (Native IDBTransaction ''objectStore'')) =
                         Some (Fn a (WrappedFn (Fn 0 (Native IDBTransaction ''objectStore'')))))"
  shows "(names = [x] \<longrightarrow>
            get_prop (Suc (Suc (Suc (Suc n)))) (Proxy j IdbProxyTraps (Host IDBTransaction i)) (Name ''store'') s =
              bind (wrap (Suc (Suc n)) (Fn 0 (Native IDBTransaction ''objectStore'')) s) (\<lambda>f s1.
              bind (host_objectStore i [JStr x] s1) (\<lambda>st s2. wrap (Suc (Suc n)) st s2))) \<and>
         (2 \<le> length names \<and> names ! 1 \<noteq> [] \<longrightarrow>
            get_prop (Suc (Suc (Suc (Suc n)))) (Proxy j IdbProxyTraps (Host IDBTransaction i)) (Name ''store'') s =
              Return Undefined s)"
proof -
  let ?T = "Host IDBTransaction i"
  let ?W = "Proxy j IdbProxyTraps ?T"
  let ?f = "Fn 0 (Native IDBTransaction ''objectStore'')"
  let ?L = "layer (Suc (Suc (Suc n)))"
  have store_prop: "get_prop (Suc (Suc (Suc (Suc n)))) ?W (Name ''store'') s = tx_store ?L ?W s"
    by (simp add: idbProxyTraps_get_def isIteratorProp_def advanceMethods_def)
  have read0: "l_get_prop ?L ?W (Name ''objectStoreNames'') s = Return (StrList names) s"
    using names_read [OF names plain types] by simp
  have many: "tx_store ?L ?W s = Return Undefined s" if "2 \<le> length names" "names ! 1 \<noteq> []"
    using that read0 by (simp add: tx_store_def elem_def)
  have one: "tx_store ?L ?W s =
      bind (wrap (Suc (Suc n)) ?f s) (\<lambda>f s1.
      bind (host_objectStore i [JStr x] s1) (\<lambda>st s2. wrap (Suc (Suc n)) st s2))" if "names = [x]"
    using cache
  proof
    assume fresh: "transformCache s ?f = None \<and> ?f \<notin> cursorFunctions s"
    let ?wf = "Fn (nextId s) (WrappedFn ?f)"
    let ?s1 = "s\<lparr>nextId := Suc (nextId s), transformCache := (transformCache s)(?f \<mapsto> ?wf),
                 reverseTransformCache := (reverseTransformCache s)(?wf \<mapsto> ?f)\<rparr>"
    have w: "wrap (Suc (Suc n)) ?f s = Return ?wf ?s1"
      using fresh by (simp add: wrap_function_new)
    have getf: "l_get_prop ?L ?W (Name ''objectStore'') s = Return ?wf ?s1"
      using native w by (simp add: idbProxyTraps_get_def isIteratorProp_def advanceMethods_def)
    have read1: "l_get_prop ?L ?W (Name ''objectStoreNames'') ?s1 = Return (StrList names) ?s1"
      using names_read [of ?s1 i names n ?W] names plain types by (simp add: raw_get_def)
    have callf: "l_call ?L ?wf ?W [JStr x] ?s1 =
        bind (host_objectStore i [JStr x] ?s1) (\<lambda>st s2. wrap (Suc (Suc n)) st s2)"
      using wrapped by (simp add: call_body_def call_closure_def unwrap_def wm_get_def host_call_def)
    show ?thesis
      using read0 getf read1 callf w that by (simp add: tx_store_def elem_def)
  next
    assume "\<exists>a. transformCache s ?f = Some (Fn a (WrappedFn ?f))"
    then obtain a where hit: "transformCache s ?f = Some (Fn a (WrappedFn ?f))" ..
    let ?wf = "Fn a (WrappedFn ?f)"
    have w: "wrap (Suc (Suc n)) ?f s = Return ?wf s"
      using hit by (simp add: wrap_cached)
    have getf: "l_get_prop ?L ?W (Name ''objectStore'') s = Return ?wf s"
      using native w by (simp add: idbProxyTraps_get_def isIteratorProp_def advanceMethods_def)
    have callf: "l_call ?L ?wf ?W [JStr x] s =
        bind (host_objectStore i [JStr x] s) (\<lambda>st s2. wrap (Suc (Suc n)) st s2)"
      using wrapped by (simp add: call_body_def call_closure_def unwrap_def wm_get_def host_call_def)
    show ?thesis
      using read0 getf callf w that by (simp add: tx_store_def elem_def)
  qed
  show ?thesis
    using store_prop many one by simp
qed


lemma tx_store_one_or_many_demo:
  "raw_get (final demo_books_tx demo) IDBTransaction 5 (Name ''objectStoreNames'') = StrList [''books''] \<and>
   transformCache (final demo_books_tx demo) (StrList [''books'']) = None \<and>
   idbProxyableTypes (final demo_books_tx demo) = [IDBDatabase, IDBCursor, IDBTransaction] \<and>
   raw_get (final demo_books_tx demo) IDBTransaction 5 (Name ''objectStore'') =
     Fn 0 (Native IDBTransaction ''objectStore'') \<and>
   reverseTransformCache (final demo_books_tx demo) (Proxy 7 IdbProxyTraps (Host IDBTransaction 5)) =
     Some (Host IDBTransaction 5) \<and>
   transformCache (final demo_books_tx demo) (Fn 0 (Native IDBTransaction ''objectStore'')) = None \<and>
   Fn 0 (Native IDBTransaction ''objectStore'') \<notin> cursorFunctions (final demo_books_tx demo) \<and>
   get_prop deep (Proxy 7 IdbProxyTraps (Host IDBTransaction 5)) (Name ''store'') (final demo_books_tx demo) =
     bind (wrap (Suc (Suc (Suc (Suc (Suc (Suc 0)))))) (Fn 0 (Native IDBTransaction ''objectStore''))
             (final demo_books_tx demo))
       (\<lambda>f s1. bind (host_objectStore 5 [JStr ''books''] s1)
                  (\<lambda>st s2. wrap (Suc (Suc (Suc (Suc (Suc (Suc 0)))))) st s2)) \<and>
   answer (get_prop deep (Proxy 7 IdbProxyTraps (Host IDBTransaction 5)) (Name ''store'')
             (final demo_books_tx demo)) =
     Returned (Proxy 10 IdbProxyTraps (Host IDBObjectStore 9)) \<and>
   raw_get (final demo_both_tx demo) IDBTransaction 5 (Name ''objectStoreNames'') =
     StrList [''authors'', ''books''] \<and>
   get_prop deep (Proxy 7 IdbProxyTraps (Host IDBTransaction 5)) (Name ''store'') (final demo_both_tx demo) =
     Return Undefined (final demo_both_tx demo)"
proof -
  let ?S = "final demo_books_tx demo"
  let ?S2 = "final demo_both_tx demo"
  let ?f = "Fn 0 (Native IDBTransaction ''objectStore'')"
  let ?W = "Proxy 7 IdbProxyTraps (Host IDBTransaction 5)"
  have h1: "raw_get ?S IDBTransaction 5 (Name ''objectStoreNames'') = StrList [''books'']"
   and h2: "transformCache ?S (StrList [''books'']) = None"
   and h3: "idbProxyableTypes ?S = [IDBDatabase, IDBCursor, IDBTransaction]"
   and h4: "raw_get ?S IDBTransaction 5 (Name ''objectStore'') = ?f"
   and h5: "reverseTransformCache ?S ?W = Some (Host IDBTransaction 5)"
   and h6: "transformCache ?S ?f = None \<and> ?f \<notin> cursorFunctions ?S"
    by (simp_all add: run_defs)
  have g1: "raw_get ?S2 IDBTransaction 5 (Name ''objectStoreNames'') = StrList [''authors'', ''books'']"
   and g2: "transformCache ?S2 (StrList [''authors'', ''books'']) = None"
   and g3: "idbProxyableTypes ?S2 = [IDBDatabase, IDBCursor, IDBTransaction]"
   and g4: "raw_get ?S2 IDBTransaction 5 (Name ''objectStore'') = ?f"
   and g5: "reverseTransformCache ?S2 ?W = Some (Host IDBTransaction 5)"
   and g6: "transformCache ?S2 ?f = None \<and> ?f \<notin> cursorFunctions ?S2"
    by (simp_all add: run_defs)
  have one: "get_prop deep ?W (Name ''store'') ?S =
      bind (wrap (Suc (Suc (Suc (Suc (Suc (Suc 0)))))) ?f ?S)
        (\<lambda>f s1. bind (host_objectStore 5 [JStr ''books''] s1)
                   (\<lambda>st s2. wrap (Suc (Suc (Suc (Suc (Suc (Suc 0)))))) st s2))"
    using tx_store_one_or_many [OF h1 h2 h3 h4 h5 disjI1 [OF h6], of "''books''" "Suc (Suc (Suc (Suc 0)))"]
    by (simp add: deep_def)
  have many: "get_prop deep ?W (Name ''store'') ?S2 = Return Undefined ?S2"
    using tx_store_one_or_many [OF g1 g2 g3 g4 g5 disjI1 [OF g6], of "''books''" "Suc (Suc (Suc (Suc 0)))"]
    by (simp add: deep_def)
  have shown: "answer (get_prop deep ?W (Name ''store'') ?S) =
      Returned (Proxy 10 IdbProxyTraps (Host IDBObjectStore 9))"
    by (simp add: run_defs)
  show ?thesis
    using h1 h2 h3 h4 h5 h6 g1 one many shown by simp
qed

text \<open>
  C7 fails on the code for a transaction that lists no store, as the version-change
  transaction of a database without stores does: the trap tests only
  \<^verbatim>\<open>objectStoreNames[1]\<close>, which is \<^verbatim>\<open>undefined\<close> there as it is for a single store, so the
  source calls \<^verbatim>\<open>objectStore(objectStoreNames[0])\<close>, that is \<^verbatim>\<open>objectStore(undefined)\<close>, and
  reading \<^verbatim>\<open>store\<close> raises the \<^verbatim>\<open>NotFoundError\<close> of the host instead of answering
  \<^verbatim>\<open>undefined\<close>.
\<close>

theorem tx_store_without_stores:
  "answer demo_upgrade_tx = Returned (Proxy 4 IdbProxyTraps (Host IDBTransaction 2)) \<and>
   raw_get (final demo_upgrade_tx demo) IDBTransaction 2 (Name ''objectStoreNames'') = StrList [] \<and>
   answer (bind demo_upgrade_tx (read deep (Name ''store''))) =
     Thrown (DOMException ''NotFoundError'' ''NotFoundError'')"
  by (simp add: run_defs)


section \<open>The completion promise of a transaction\<close>





section \<open>Requests as promises\<close>

text \<open>
  Where \<^verbatim>\<open>promisifyRequest\<close> does what the claim says. For a raw request that is an event
  target with no listener yet for \<^verbatim>\<open>success\<close> and \<^verbatim>\<open>error\<close>: \<^verbatim>\<open>promisifyRequest\<close> (and so
  \<^verbatim>\<open>wrap\<close>) returns a new pending promise, and \<^verbatim>\<open>unwrap\<close> of the promise is the request.
  When the request succeeds with a result \<open>v\<close> (a value other than \<^verbatim>\<open>NaN\<close>, a function, a
  transaction or a request), the promise is resolved with \<^verbatim>\<open>wrap(v)\<close>; when it fails with
  the error \<open>e\<close>, the promise is rejected with \<open>e\<close>. In both cases the two listeners are
  removed from the request.
\<close>

lemma promisifyRequest_settles:
  assumes et: "event_target s IDBRequest r"
      and q: "quiet s r [''success'', ''error'']"
      and plain: "\<not> isFunction v" "\<not> instanceof v IDBTransaction" "\<not> instanceof v IDBRequest" "v \<noteq> JNaN"
  shows "promisifyRequest (layer (Suc (Suc n))) (Host IDBRequest r) s =
           Return (Promise (nextId s)) (promisified r s) \<and>
         wrap (Suc (Suc (Suc n))) (Host IDBRequest r) s = Return (Promise (nextId s)) (promisified r s) \<and>
         promises (promisified r s) (nextId s) = Pending \<and>
         unwrap (Promise (nextId s)) (promisified r s) = Host IDBRequest r \<and>
         (\<exists>w s'. wrap (Suc (Suc n)) v (set_hprop r (Name ''result'') v (promisified r s)) = Return w s' \<and>
            map_option (\<lambda>s'. (promises s' (nextId s), hlisteners (hobjs s' r)))
              (dispatch (layer (Suc (Suc (Suc n)))) (Host IDBRequest r, ''success'', [(r, Name ''result'', v)])
                 (promisified r s)) =
              Some (case w of Promise q \<Rightarrow> Adopted w | _ \<Rightarrow> Fulfilled w, hlisteners (hobjs s r))) \<and>
         map_option (\<lambda>s'. (promises s' (nextId s), hlisteners (hobjs s' r)))
           (dispatch (layer (Suc (Suc (Suc n)))) (Host IDBRequest r, ''error'', [(r, Name ''error'', e)])
              (promisified r s)) =
           Some (Rejected e, hlisteners (hobjs s r))"
proof -
  let ?R = "Host IDBRequest r"
  let ?P = "nextId s"
  let ?s1 = "promisified r s"
  let ?L = "layer (Suc (Suc (Suc n)))"
  have p1: "promisifyRequest (layer (Suc (Suc n))) ?R s = Return (Promise ?P) ?s1"
    using et by (rule promisifyRequest_host)
  have w1: "wrap (Suc (Suc (Suc n))) ?R s = Return (Promise ?P) ?s1"
    using p1 by (simp add: wrap_body_def)
  have pend: "promises ?s1 ?P = Pending"
    by (simp add: promisified_def)
  have un: "unwrap (Promise ?P) ?s1 = ?R"
    by (simp add: unwrap_def wm_get_def promisified_def)
  have ls: "hlisteners (hobjs ?s1 r) =
      hlisteners (hobjs s r) @ [(''success'', Fn ?P (ReqSuccess ?P ?R)), (''error'', Fn ?P (ReqError ?P ?R))]"
    using q by (auto simp add: promisified_def quiet_def listen_def)
  have et2: "\<And>s' p x. hprops (hobjs s' r) = (Name p, x) # hprops (hobjs s r) \<Longrightarrow>
     p = ''error'' \<or> p = ''result'' \<Longrightarrow>
     protoMembers s' = protoMembers s \<Longrightarrow> event_target s' IDBRequest r"
    using et by (auto simp add: event_target_def raw_get_def obj_get_def)
  define su where "su = set_hprop r (Name ''result'') v ?s1"
  obtain w s' where wr: "wrap (Suc (Suc n)) v su = Return w s'"
    and fr: "hobjs s' = hobjs su" "protoMembers s' = protoMembers su" "promises s' = promises su"
    using wrap_plain_frame [OF plain, of "layer (Suc n)" su] by auto
  let ?ok = "Fn ?P (ReqSuccess ?P ?R)"
  let ?ko = "Fn ?P (ReqError ?P ?R)"
  have res: "raw_get su IDBRequest r (Name ''result'') = v"
    by (simp add: su_def set_hprop_def raw_get_def obj_get_def)
  have hp: "hprops (hobjs s' r) = (Name ''result'', v) # hprops (hobjs s r)"
           "protoMembers s' = protoMembers s"
    by (simp_all add: fr su_def set_hprop_def promisified_def)
  have e1: "event_target (resolve ?P w s') IDBRequest r"
    by (rule et2 [of _ "''result''" v]) (simp_all add: hp resolve_def)
  have e2: "event_target (remove_listener r ''success'' ?ok (resolve ?P w s')) IDBRequest r"
    by (rule et2 [of _ "''result''" v]) (simp_all add: hp resolve_def remove_listener_def)
  have cl: "call_body (layer (Suc (Suc n))) ?ok ?R [] su =
      Return Undefined (remove_listener r ''error'' ?ko (remove_listener r ''success'' ?ok (resolve ?P w s')))"
    using wr by (simp add: call_body_def call_closure_def res removeEventListener_host e1 e2)
  have lsu: "hlisteners (hobjs su r) = hlisteners (hobjs s r) @ [(''success'', ?ok), (''error'', ?ko)]"
    using ls by (simp add: su_def set_hprop_def)
  have lf: "listeners_for ?R ''success'' su = [?ok]"
    using lsu quiet_filter(1) [OF q, of "''success''"] by (simp add: listeners_for_def)
  have reg: "registered ?R ''success'' ?ok su"
    using lsu by (simp add: registered_def)
  have d: "dispatch ?L (?R, ''success'', [(r, Name ''result'', v)]) ?s1 =
      Some (remove_listener r ''error'' ?ko (remove_listener r ''success'' ?ok (resolve ?P w s')))"
    using lf reg cl by (simp add: dispatch_def apply_updates_def su_def [symmetric])
  have hl: "hlisteners (hobjs s' r) = hlisteners (hobjs s r) @ [(''success'', ?ok), (''error'', ?ko)]"
    using lsu by (simp add: fr)
  have pp: "promises s' ?P = Pending"
    by (simp add: fr su_def set_hprop_def promisified_def)
  have ok: "map_option (\<lambda>s'. (promises s' ?P, hlisteners (hobjs s' r)))
              (dispatch ?L (?R, ''success'', [(r, Name ''result'', v)]) ?s1) =
              Some (case w of Promise q \<Rightarrow> Adopted w | _ \<Rightarrow> Fulfilled w, hlisteners (hobjs s r))"
    using hl pp quiet_filter(2) [OF q]
    by (simp add: d resolve_def remove_listener_def unlisten_def settle_def)
  have err: "map_option (\<lambda>s'. (promises s' ?P, hlisteners (hobjs s' r)))
           (dispatch ?L (?R, ''error'', [(r, Name ''error'', e)]) ?s1) = Some (Rejected e, hlisteners (hobjs s r))"
    using ls quiet_filter [OF q]
    apply (simp add: dispatch_def apply_updates_def listeners_for_def registered_def call_body_def call_closure_def
             set_hprop_def)
    apply (simp add: removeEventListener_host et2 promisified_def reject_def remove_listener_def
       unlisten_def settle_def raw_get_def obj_get_def listen_def)
    done
  show ?thesis
    using p1 w1 pend un wr ok err by (simp add: su_def)
qed


lemma promisifyRequest_settles_demo:
  "event_target demo IDBRequest 0 \<and>
   quiet demo 0 [''success'', ''error''] \<and>
   promisifyRequest (layer (Suc (Suc 0))) (Host IDBRequest 0) demo =
     Return (Promise (nextId demo)) (promisified 0 demo) \<and>
   unwrap (Promise (nextId demo)) (promisified 0 demo) = Host IDBRequest 0 \<and>
   wrap (Suc (Suc 0)) (Host IDBDatabase 1) (set_hprop 0 (Name ''result'') (Host IDBDatabase 1) (promisified 0 demo)) =
     Return (Proxy 4 IdbProxyTraps (Host IDBDatabase 1))
       (final (wrap (Suc (Suc 0)) (Host IDBDatabase 1)
                 (set_hprop 0 (Name ''result'') (Host IDBDatabase 1) (promisified 0 demo))) demo) \<and>
   map_option (\<lambda>s'. (promises s' (nextId demo), hlisteners (hobjs s' 0)))
     (dispatch (layer (Suc (Suc (Suc 0)))) (Host IDBRequest 0, ''success'', [(0, Name ''result'', Host IDBDatabase 1)])
        (promisified 0 demo)) =
     Some (Fulfilled (Proxy 4 IdbProxyTraps (Host IDBDatabase 1)), hlisteners (hobjs demo 0)) \<and>
   map_option (\<lambda>s'. (promises s' (nextId demo), hlisteners (hobjs s' 0)))
     (dispatch (layer (Suc (Suc (Suc 0)))) (Host IDBRequest 0, ''error'',
        [(0, Name ''error'', DOMException ''missing'' ''NotFoundError'')]) (promisified 0 demo)) =
     Some (Rejected (DOMException ''missing'' ''NotFoundError''), hlisteners (hobjs demo 0))"
proof -
  have h1: "event_target demo IDBRequest 0"
    by (simp add: event_target_def run_defs)
  have h2: "quiet demo 0 [''success'', ''error'']"
    by (simp add: quiet_def run_defs)
  have h3: "\<not> isFunction (Host IDBDatabase 1)" "\<not> instanceof (Host IDBDatabase 1) IDBTransaction"
    "\<not> instanceof (Host IDBDatabase 1) IDBRequest" "Host IDBDatabase 1 \<noteq> JNaN"
    by simp_all
  have w: "wrap (Suc (Suc 0)) (Host IDBDatabase 1)
             (set_hprop 0 (Name ''result'') (Host IDBDatabase 1) (promisified 0 demo)) =
     Return (Proxy 4 IdbProxyTraps (Host IDBDatabase 1))
       (final (wrap (Suc (Suc 0)) (Host IDBDatabase 1)
                 (set_hprop 0 (Name ''result'') (Host IDBDatabase 1) (promisified 0 demo))) demo)"
    by (simp add: promisified_def run_defs)
  show ?thesis
    using h1 h2 w promisifyRequest_settles [OF h1 h2 h3, of 0 "DOMException ''missing'' ''NotFoundError''"]
    by auto
qed

text \<open>
  C5 fails on the code for a request that succeeds with \<^verbatim>\<open>NaN\<close>, the result of reading a
  record whose value is \<^verbatim>\<open>NaN\<close>. \<^verbatim>\<open>wrap\<close> means to leave a primitive value as it is and to
  cache nothing for it, but its test \<^verbatim>\<open>newValue !== value\<close> holds for \<^verbatim>\<open>NaN\<close>, so
  \<^verbatim>\<open>transformCache.set(NaN, NaN)\<close> throws a \<^verbatim>\<open>TypeError\<close> inside the success listener, before
  \<^verbatim>\<open>resolve\<close> and before the listeners are removed: the promise stays pending for ever,
  awaiting it never returns, and both listeners stay on the request.
\<close>

theorem promisifyRequest_NaN_result:
  "answer (wrap deep JNaN demo) = Thrown TypeError \<and>
   answer (bind (promisifyRequest (layer deep) (Host IDBRequest 0) demo) (\<lambda>p s1.
             case dispatch (layer deep) (Host IDBRequest 0, ''success'', [(0, Name ''result'', JNaN)]) s1 of
               None \<Rightarrow> Stuck
             | Some s2 \<Rightarrow> Return (p, promises s2 3, hlisteners (hobjs s2 0)) s2)) =
     Returned (Promise 3, Pending,
               [(''success'', Fn 3 (ReqSuccess 3 (Host IDBRequest 0))),
                (''error'', Fn 3 (ReqError 3 (Host IDBRequest 0)))]) \<and>
   answer (bind (promisifyRequest (layer deep) (Host IDBRequest 0) demo) (\<lambda>p s1.
             await (layer deep) (Suc (Suc 0)) p
               (enqueue (Host IDBRequest 0, ''success'', [(0, Name ''result'', JNaN)]) s1))) = NoAnswer"
  by (simp add: run_defs enqueue_def)


section \<open>The identity of wrapped objects\<close>

text \<open>
  C1, as amended. For a raw proxyable object \<open>r\<close> (a database, cursor, transaction, object
  store or index; a transaction being an event target), in a state where the list of
  proxyable classes is as the source leaves it and the two caches agree: \<^verbatim>\<open>wrap(r)\<close> returns
  an object, wrapping \<open>r\<close> again returns the identical object and changes nothing, and
  \<^verbatim>\<open>unwrap\<close> of that object is \<open>r\<close>; when \<open>r\<close> was not wrapped before, the object is a new proxy
  of \<open>r\<close>.
\<close>

theorem wrap_identity:
  assumes proxyable: "k \<noteq> IDBRequest"
      and types: "types_ok s"
      and agree: "caches_agree s"
      and et: "k = IDBTransaction \<longrightarrow> event_target s k i"
  shows "\<exists>w s1. wrap (Suc (Suc (Suc n))) (Host k i) s = Return w s1 \<and>
           wrap (Suc (Suc (Suc n))) (Host k i) s1 = Return w s1 \<and>
           unwrap w s1 = Host k i \<and>
           (transformCache s (Host k i) = None \<longrightarrow> w = Proxy (nextId s1 - 1) IdbProxyTraps (Host k i))"
proof (cases "transformCache s (Host k i)")
  case (Some w)
  have "isObject w" "reverseTransformCache s w = Some (Host k i)"
    using agree Some by (auto simp add: caches_agree_def)
  then show ?thesis
    using Some proxyable by (simp add: wrap_cached unwrap_def wm_get_def)
next
  case None
  let ?r = "Host k i"
  obtain s0 where md: "make_done (layer (Suc (Suc n))) ?r s = Some s0"
    and fr: "idbProxyableTypes s0 = idbProxyableTypes s" "transformCache s0 = transformCache s"
            "reverseTransformCache s0 = reverseTransformCache s"
  proof (cases "k = IDBTransaction \<and> transactionDoneMap s ?r = None")
    case True
    then have k: "k = IDBTransaction" and nd: "transactionDoneMap s (Host IDBTransaction i) = None"
      by auto
    have "make_done (layer (Suc (Suc n))) ?r s =
        Some (s\<lparr>nextId := Suc (nextId s), promises := (promises s)(nextId s := Pending),
             hobjs := (hobjs s)(i := done_listeners (nextId s) (Host IDBTransaction i) (hobjs s i)),
             transactionDoneMap := (transactionDoneMap s)(Host IDBTransaction i \<mapsto> Promise (nextId s))\<rparr>)"
      using et k nd make_done_first [of s i n] by simp
    then show ?thesis
      using that by simp
  next
    case False
    then have "make_done (layer (Suc (Suc n))) ?r s = Some s"
      by (cases "k = IDBTransaction") (auto simp add: make_done_known make_done_other)
    then show ?thesis
      using that by simp
  qed
  let ?w = "Proxy (nextId s0) IdbProxyTraps ?r"
  let ?s1 = "s0\<lparr>idbProxyableTypes := [IDBDatabase, IDBCursor, IDBTransaction], nextId := Suc (nextId s0),
               transformCache := (transformCache s)(?r \<mapsto> ?w),
               reverseTransformCache := (reverseTransformCache s)(?w \<mapsto> ?r)\<rparr>"
  have prox: "isProxyable ?r s0 = (True, s0\<lparr>idbProxyableTypes := [IDBDatabase, IDBCursor, IDBTransaction]\<rparr>)"
    using proxyable types fr(1) by (cases k) (auto simp add: isProxyable_def isStoreLike_def types_ok_def)
  have w1: "wrap (Suc (Suc (Suc n))) ?r s = Return ?w ?s1"
    using None proxyable md prox fr
    by (simp add: wrap_body_def wm_has_def transformCachableValue_def)
  have w2: "wrap (Suc (Suc (Suc n))) ?r ?s1 = Return ?w ?s1"
    using proxyable by (simp add: wrap_cached)
  have un: "unwrap ?w ?s1 = ?r"
    by (simp add: unwrap_def wm_get_def)
  show ?thesis
    using w1 w2 un by simp
qed

theorem wrap_identity_witness:
  "types_ok demo \<and> caches_agree demo \<and> event_target demo IDBTransaction 2 \<and>
   (\<exists>w s1. wrap (Suc (Suc (Suc 0))) (Host IDBTransaction 2) demo = Return w s1 \<and>
           wrap (Suc (Suc (Suc 0))) (Host IDBTransaction 2) s1 = Return w s1 \<and>
           unwrap w s1 = Host IDBTransaction 2 \<and>
           w = Proxy (nextId s1 - 1) IdbProxyTraps (Host IDBTransaction 2)) \<and>
   answer (wrap (Suc (Suc (Suc 0))) (Host IDBTransaction 2) demo) =
     Returned (Proxy 4 IdbProxyTraps (Host IDBTransaction 2))"
proof -
  have h1: "types_ok demo"
    by (simp add: types_ok_def run_defs)
  have h2: "caches_agree demo"
    by (simp add: caches_agree_def run_defs)
  have h3: "event_target demo IDBTransaction 2"
    by (simp add: event_target_def run_defs)
  have h4: "transformCache demo (Host IDBTransaction 2) = None"
    by (simp add: run_defs)
  have shown: "answer (wrap (Suc (Suc (Suc 0))) (Host IDBTransaction 2) demo) =
     Returned (Proxy 4 IdbProxyTraps (Host IDBTransaction 2))"
    by (simp add: run_defs)
  show ?thesis
    using h1 h2 h3 h4 shown wrap_identity [of IDBTransaction demo 2 0] by simp
qed

text \<open>
  The claim as stated fails in its first half: \<^verbatim>\<open>wrap\<close> applied to a wrapped object is not
  that object. The proxy is an instance of the class of its target and no key of the
  forward cache, so \<^verbatim>\<open>wrap\<close> builds a second proxy around it, and \<^verbatim>\<open>unwrap\<close> of the second
  proxy is the first.
\<close>

theorem wrap_wrap_counterexample:
  "answer demo_db = Returned (Proxy 3 IdbProxyTraps (Host IDBDatabase 1)) \<and>
   answer (bind demo_db (wrap deep)) =
     Returned (Proxy 4 IdbProxyTraps (Proxy 3 IdbProxyTraps (Host IDBDatabase 1))) \<and>
   answer (bind demo_db (wrap deep)) \<noteq> answer demo_db \<and>
   unwrap (Proxy 4 IdbProxyTraps (Proxy 3 IdbProxyTraps (Host IDBDatabase 1)))
     (final (bind demo_db (wrap deep)) demo) = Proxy 3 IdbProxyTraps (Host IDBDatabase 1)"
  by (simp add: run_defs)



section \<open>Advancing inside a pass of the iteration\<close>

text \<open>
  C6. Let the consumer, in one pass, call advancing methods on the yielded proxy, the last
  of them \<open>nm\<close> with the arguments \<open>args\<close>, and let that last call return a promise \<open>r\<close> from
  the wrapped cursor. Then, whatever the earlier calls of the pass stashed, the slot of the
  proxy in \<^verbatim>\<open>advanceResults\<close> holds \<open>r\<close> when the body ends, the pass awaits \<open>r\<close> (and calls
  no \<^verbatim>\<open>continue\<close> of its own), and every pass that returns leaves the slot empty.
\<close>

theorem last_advance_wins:
  assumes nm: "nm \<in> set advanceMethods"
      and earlier: "consume (layer (Suc (Suc n))) cs (Proxy j CursorIteratorTraps c0) s = Return () s1"
      and lookup: "proxiedCursorLookup s1 (Proxy j CursorIteratorTraps c0) = Some c"
      and slot: "cachedMethods s1 nm = None \<or> (\<exists>a. cachedMethods s1 nm = Some (Fn a (AdvanceStub nm)))"
      and last: "call_method (layer (Suc n)) c nm args (stub_cached nm s1) = Return r s2"
      and promise: "truthy r"
  shows "consume (layer (Suc (Suc n))) (cs @ [(nm, args)]) (Proxy j CursorIteratorTraps c0) s =
           Return () (s2\<lparr>advanceResults := (advanceResults s2)(Proxy j CursorIteratorTraps c0 \<mapsto> r)\<rparr>) \<and>
         iterate_pass (layer (Suc (Suc n))) e (cs @ [(nm, args)]) cursor (Proxy j CursorIteratorTraps c0) s =
           bind (await (layer (Suc (Suc n))) e r
                   (s2\<lparr>advanceResults := (advanceResults s2)(Proxy j CursorIteratorTraps c0 \<mapsto> r)\<rparr>))
             (\<lambda>cursor' s3. Return cursor'
                (s3\<lparr>advanceResults := (advanceResults s3)(Proxy j CursorIteratorTraps c0 := None)\<rparr>)) \<and>
         (\<forall>calls cursor0 s0 c' s'.
            iterate_pass (layer (Suc (Suc n))) e calls cursor0 (Proxy j CursorIteratorTraps c0) s0 = Return c' s'
            \<longrightarrow> advanceResults s' (Proxy j CursorIteratorTraps c0) = None)"
proof -
  let ?L = "layer (Suc (Suc n))"
  let ?pc = "Proxy j CursorIteratorTraps c0"
  let ?s3 = "s2\<lparr>advanceResults := (advanceResults s2)(?pc \<mapsto> r)\<rparr>"
  have one: "call_method ?L ?pc nm args s1 = Return Undefined ?s3"
    using stub_call [OF nm lookup slot] last by simp
  have all: "consume ?L (cs @ [(nm, args)]) ?pc s = Return () ?s3"
    using earlier one by (simp add: consume_append)
  have intent: "advance_intent ?L cursor ?pc ?s3 = Return r ?s3"
    using promise by (simp add: advance_intent_def wm_get_def)
  have pass: "iterate_pass ?L e (cs @ [(nm, args)]) cursor ?pc s =
      bind (await ?L e r ?s3)
        (\<lambda>cursor' s3. Return cursor' (s3\<lparr>advanceResults := (advanceResults s3)(?pc := None)\<rparr>))"
    using all intent by (simp add: iterate_pass_def)
  have cleared: "advanceResults s' ?pc = None"
    if "iterate_pass ?L e calls cursor0 ?pc s0 = Return c' s'" for calls cursor0 s0 c' s'
    using that by (auto simp add: iterate_pass_def bind_def split: outcome.splits)
  show ?thesis
    using all pass cleared by blast
qed


theorem last_advance_wins_witness:
  "''continue'' \<in> set advanceMethods \<and>
   consume (layer deep) [(''advance'', [JNum 2])] demo_pc demo_iter = Return () demo_advanced \<and>
   advanceResults demo_advanced demo_pc = Some (Promise 19) \<and>
   proxiedCursorLookup demo_advanced demo_pc = Some (Proxy 15 IdbProxyTraps (Host IDBCursor 13)) \<and>
   cachedMethods demo_advanced ''continue'' = None \<and>
   call_method (layer (Suc (Suc (Suc (Suc (Suc (Suc (Suc 0)))))))) (Proxy 15 IdbProxyTraps (Host IDBCursor 13))
       ''continue'' [] (stub_cached ''continue'' demo_advanced) =
     Return (Promise 22)
       (final (call_method (layer (Suc (Suc (Suc (Suc (Suc (Suc (Suc 0))))))))
                 (Proxy 15 IdbProxyTraps (Host IDBCursor 13)) ''continue'' []
                 (stub_cached ''continue'' demo_advanced)) demo) \<and>
   truthy (Promise 22) \<and>
   advanceResults
     (final (consume (layer deep) [(''advance'', [JNum 2]), (''continue'', [])] demo_pc demo_iter) demo) demo_pc =
     Some (Promise 22) \<and>
   iterate_pass (layer deep) (Suc 0) [(''advance'', [JNum 2]), (''continue'', [])]
       (Proxy 15 IdbProxyTraps (Host IDBCursor 13)) demo_pc demo_iter =
     bind (await (layer deep) (Suc 0) (Promise 22)
             ((final (call_method (layer (Suc (Suc (Suc (Suc (Suc (Suc (Suc 0))))))))
                        (Proxy 15 IdbProxyTraps (Host IDBCursor 13)) ''continue'' []
                        (stub_cached ''continue'' demo_advanced)) demo)
                \<lparr>advanceResults :=
                   (advanceResults
                      (final (call_method (layer (Suc (Suc (Suc (Suc (Suc (Suc (Suc 0))))))))
                                (Proxy 15 IdbProxyTraps (Host IDBCursor 13)) ''continue'' []
                                (stub_cached ''continue'' demo_advanced)) demo))
                   (demo_pc \<mapsto> Promise 22)\<rparr>))
       (\<lambda>cursor' s3. Return cursor' (s3\<lparr>advanceResults := (advanceResults s3)(demo_pc := None)\<rparr>))"
proof -
  let ?C = "Proxy 15 IdbProxyTraps (Host IDBCursor 13)"
  let ?n = "Suc (Suc (Suc (Suc (Suc (Suc 0)))))"
  let ?S2 = "final (call_method (layer (Suc ?n)) ?C ''continue'' [] (stub_cached ''continue'' demo_advanced)) demo"
  have h1: "''continue'' \<in> set advanceMethods"
    by (simp add: advanceMethods_def)
  have h2: "consume (layer (Suc (Suc ?n))) [(''advance'', [JNum 2])] (Proxy 16 CursorIteratorTraps ?C) demo_iter =
      Return () demo_advanced"
    by (simp add: run_defs)
  have h3: "proxiedCursorLookup demo_advanced (Proxy 16 CursorIteratorTraps ?C) = Some ?C"
    by (simp add: run_defs)
  have h4: "cachedMethods demo_advanced ''continue'' = None"
    by (simp add: run_defs)
  have h5: "call_method (layer (Suc ?n)) ?C ''continue'' [] (stub_cached ''continue'' demo_advanced) =
      Return (Promise 22) ?S2"
    by (simp add: run_defs)
  have h6: "truthy (Promise 22)"
    by simp
  have stash: "advanceResults demo_advanced demo_pc = Some (Promise 19)"
    by (simp add: run_defs)
  note main = last_advance_wins [OF h1 h2 h3 disjI1 [OF h4] h5 h6, of "Suc 0" ?C]
  have both: "advanceResults
     (final (consume (layer deep) [(''advance'', [JNum 2]), (''continue'', [])] demo_pc demo_iter) demo) demo_pc =
     Some (Promise 22)"
    using main by (simp add: deep_def demo_pc_def)
  show ?thesis
    using h1 h2 h3 h4 h5 stash both main by (simp add: deep_def demo_pc_def)
qed


section \<open>Awaiting the success of a request\<close>

text \<open>
  A request with the two listeners of \<^verbatim>\<open>promisifyRequest\<close>, whose success event is the only
  event waiting: awaiting the promise delivers the event, the listener resolves the promise
  with the wrapped result and removes both listeners.
\<close>

lemma obj_get_Cons [simp]:
  "obj_get ms k ((p, w) # ps) p = w"
  "q \<noteq> p \<Longrightarrow> obj_get ms k ((q, w) # ps) p = obj_get ms k ps p"
  by (simp_all add: obj_get_def)

lemma obj_get_Nil [simp]:
  "obj_get ms k [] (Name nm) = (if nm \<in> set ms then Fn 0 (Native k nm) else Undefined)"
  by (simp add: obj_get_def)

lemma promisifyRequest_host1:
  assumes "event_target s IDBRequest r"
  shows "promisifyRequest (layer (Suc n)) (Host IDBRequest r) s =
           Return (Promise (nextId s)) (promisified r s)"
proof -
  have et: "\<And>s'. hprops (hobjs s' r) = hprops (hobjs s r) \<Longrightarrow> protoMembers s' = protoMembers s
     \<Longrightarrow> event_target s' IDBRequest r"
    using assms by (rule event_target_same)
  show ?thesis
    by (simp add: promisifyRequest_def addEventListener_host et executor_done_def promisified_def
         add_listener_def)
qed

lemma wrap_promise:
  assumes "transformCache s (Promise p) = None" "idbProxyableTypes s = [IDBDatabase, IDBCursor, IDBTransaction]"
  shows "wrap_body L (Promise p) s = Return (Promise p) s"
  using assms by (simp add: wrap_plain wm_has_def isProxyable_ready isStoreLike_def)

lemma wrap_Null:
  assumes "idbProxyableTypes s = [IDBDatabase, IDBCursor, IDBTransaction]"
  shows "wrap_body L Null s = Return Null s"
  using assms by (simp add: wrap_plain wm_has_def isProxyable_ready isStoreLike_def)

lemma deliver_ready: "ready s = Some a \<Longrightarrow> deliver L e ready s = Some (a, s)"
  by (cases e) simp_all

lemma apply_updates_listeners [simp]:
  "hlisteners (hobjs (apply_updates ups s) i) = hlisteners (hobjs s i)"
proof (induction ups arbitrary: s)
  case Nil
  show ?case by (simp add: apply_updates_def)
next
  case (Cons u ups)
  have "apply_updates (u # ups) s = apply_updates ups (set_hprop (fst u) (fst (snd u)) (snd (snd u)) s)"
    by (simp add: apply_updates_def)
  then show ?case
    using Cons.IH by (simp add: set_hprop_def)
qed

lemma apply_updates_Cons:
  "apply_updates (u # ups) s = apply_updates ups (set_hprop (fst u) (fst (snd u)) (snd (snd u)) s)"
  by (simp add: apply_updates_def)

lemma apply_updates_Nil [simp]: "apply_updates [] s = s"
  by (simp add: apply_updates_def)

lemma apply_updates_frame [simp]:
  "promises (apply_updates ups s) = promises s"
  "hqueue (apply_updates ups s) = hqueue s"
  "handled (apply_updates ups s) = handled s"
  "nextId (apply_updates ups s) = nextId s"
  "transformCache (apply_updates ups s) = transformCache s"
  "reverseTransformCache (apply_updates ups s) = reverseTransformCache s"
  "idbProxyableTypes (apply_updates ups s) = idbProxyableTypes s"
  "cachedMethods (apply_updates ups s) = cachedMethods s"
  "advanceResults (apply_updates ups s) = advanceResults s"
  "cursorFunctions (apply_updates ups s) = cursorFunctions s"
  "transactionDoneMap (apply_updates ups s) = transactionDoneMap s"
  "proxiedCursorLookup (apply_updates ups s) = proxiedCursorLookup s"
  "protoMembers (apply_updates ups s) = protoMembers s"
  by (induction ups arbitrary: s; simp add: apply_updates_Cons set_hprop_def)+

lemma success_listener:
  assumes et: "event_target t IDBRequest r"
      and res: "raw_get t IDBRequest r (Name ''result'') = v"
      and w: "wrap (Suc n) v t = Return w t'"
      and fr: "hobjs t' = hobjs t" "protoMembers t' = protoMembers t"
  shows "call_body (layer (Suc n)) (Fn P (ReqSuccess P (Host IDBRequest r))) this [] t =
           Return Undefined
             (remove_listener r ''error'' (Fn P (ReqError P (Host IDBRequest r)))
                (remove_listener r ''success'' (Fn P (ReqSuccess P (Host IDBRequest r))) (resolve P w t')))"
proof -
  have e1: "event_target (resolve P w t') IDBRequest r"
    using et fr by (simp add: event_target_def prims)
  have e2: "event_target (remove_listener r ''success'' (Fn P (ReqSuccess P (Host IDBRequest r))) (resolve P w t'))
              IDBRequest r"
    using et fr by (simp add: event_target_def prims)
  show ?thesis
    using w res by (simp add: call_body_def call_closure_def removeEventListener_host e1 e2)
qed

lemma await_success:
  fixes P r ups s
  defines "ok \<equiv> Fn P (ReqSuccess P (Host IDBRequest r))"
      and "ko \<equiv> Fn P (ReqError P (Host IDBRequest r))"
      and "t \<equiv> apply_updates ups ((observe [Promise P] s)\<lparr>hqueue := []\<rparr>)"
  assumes q0: "hqueue s = [(Host IDBRequest r, ''success'', ups)]"
      and ls: "hlisteners (hobjs s r) = [(''success'', ok), (''error'', ko)]"
      and pend: "promises s P = Pending"
      and et: "event_target t IDBRequest r"
      and res: "raw_get t IDBRequest r (Name ''result'') = v"
      and w: "wrap (Suc n) v t = Return w t'"
      and fr: "hobjs t' = hobjs t" "protoMembers t' = protoMembers t" "promises t' = promises t"
      and plain: "\<And>q. w \<noteq> Promise q"
  shows "await (layer (Suc (Suc n))) (Suc e) (Promise P) s =
           Return w (remove_listener r ''error'' ko (remove_listener r ''success'' ok (resolve P w t')))"
proof -
  let ?L = "layer (Suc (Suc n))"
  let ?s0 = "observe [Promise P] s"
  let ?t' = "remove_listener r ''error'' ko (remove_listener r ''success'' ok (resolve P w t'))"
  have lt: "hlisteners (hobjs t r) = [(''success'', ok), (''error'', ko)]"
    using ls by (simp add: t_def observe_def)
  have pt: "promises t' = promises s"
    using fr by (simp add: t_def observe_def)
  have notyet: "settled (Suc e) (Promise P) ?s0 = None"
    using pend by (simp add: settled_def observe_def)
  have cl: "l_call ?L ok (Host IDBRequest r) [] t = Return Undefined ?t'"
    using success_listener [OF et res w fr(1,2)] by (simp add: ok_def ko_def)
  have lf: "listeners_for (Host IDBRequest r) ''success'' t = [ok]"
    using lt by (simp add: listeners_for_def)
  have reg: "registered (Host IDBRequest r) ''success'' ok t"
    using lt by (simp add: registered_def)
  have "dispatch ?L (Host IDBRequest r, ''success'', ups) (?s0\<lparr>hqueue := []\<rparr>) =
      run_listeners ?L (Host IDBRequest r) ''success'' (listeners_for (Host IDBRequest r) ''success'' t) t"
    unfolding dispatch_def t_def by simp
  then have d: "dispatch ?L (Host IDBRequest r, ''success'', ups) (?s0\<lparr>hqueue := []\<rparr>) = Some ?t'"
    using lf reg cl by simp
  have now: "settled (Suc e) (Promise P) ?t' = Some (Inr w)"
  proof (cases w)
    case (Promise q)
    then show ?thesis using plain by blast
  qed (use pend pt in \<open>simp_all add: settled_def prims settle_def\<close>)
  have "deliver ?L (Suc e) (settled (Suc e) (Promise P)) ?s0 = Some (Inr w, ?t')"
    using notyet q0 d
      deliver_ready [of "settled (Suc e) (Promise P)" ?t' "Inr w" ?L e, OF now]
    by (simp add: observe_def)
  then show ?thesis
    by (simp add: await_def)
qed


section \<open>Iterating over the records of a store\<close>

text \<open>
  One pass of the loop with a consumer that calls nothing: the default \<^verbatim>\<open>continue\<close> is
  issued on the wrapped cursor, its promise is awaited, and the next value of the cursor is
  the same wrapped cursor, or \<^verbatim>\<open>null\<close> when no record is left.
\<close>

lemma continue_trap:
  assumes "raw_get s IDBCursor c (Name ''continue'') = continue_fn"
  shows "get_prop_body (layer (Suc k)) (Proxy j IdbProxyTraps (Host IDBCursor c)) (Name ''continue'') s =
           Return (continue_wrapper s) (continue_wrapped s)"
proof (cases "transformCache s continue_fn")
  case None
  then show ?thesis
    using assms
    by (simp add: idbProxyTraps_get_def isIteratorProp_def isStoreLike_def advanceMethods_def continue_fn_def
          wrap_function_new continue_wrapper_def continue_wrapped_def raw_get_def)
next
  case (Some w)
  then show ?thesis
    using assms
    by (simp add: idbProxyTraps_get_def isIteratorProp_def isStoreLike_def advanceMethods_def continue_fn_def
          wrap_cached continue_wrapper_def continue_wrapped_def raw_get_def)
qed

lemma host_advance_one:
  assumes "hdata (hobjs s c) = CursorData (Host IDBRequest r) rest"
  shows "host_advance c (Suc 0) s = Return Undefined (advanced c r rest s)"
  using assms by (cases rest) (simp_all add: host_advance_def advanced_def next_event_def)

lemma continue_call:
  assumes wrapped: "reverseTransformCache s (Proxy j IdbProxyTraps (Host IDBCursor c)) = Some (Host IDBCursor c)"
      and data: "hdata (hobjs s c) = CursorData (Host IDBRequest r) rest"
      and req: "raw_get s IDBCursor c (Name ''request'') = Host IDBRequest r"
      and et: "event_target s IDBRequest r"
      and neq: "c \<noteq> r"
      and types: "idbProxyableTypes s = [IDBDatabase, IDBCursor, IDBTransaction]"
      and nop: "\<And>p. transformCache s (Promise p) = None"
  shows "call_body (layer (Suc (Suc (Suc n)))) (Fn a (WrappedCursorFn continue_fn))
           (Proxy j IdbProxyTraps (Host IDBCursor c)) [] s =
         Return (Promise (nextId s)) (promisified r (advanced c r rest s))"
proof -
  let ?C = "Host IDBCursor c"
  let ?W = "Proxy j IdbProxyTraps ?C"
  let ?s1 = "advanced c r rest s"
  have native: "l_call (layer (Suc (Suc (Suc n)))) continue_fn (unwrap ?W s) [] s = Return Undefined ?s1"
    using wrapped host_advance_one [OF data]
    by (simp add: continue_fn_def unwrap_def wm_get_def host_call_def)
  have req1: "raw_get ?s1 IDBCursor c (Name ''request'') = Host IDBRequest r"
    using req by (simp add: advanced_def prims)
  have et1: "event_target ?s1 IDBRequest r"
    using et neq by (simp add: event_target_def advanced_def prims)
  have prom: "wrap_body (layer (Suc n)) (Host IDBRequest r) ?s1 = Return (Promise (nextId s)) (promisified r ?s1)"
    using promisifyRequest_host1 [OF et1, of n] by (simp add: wrap_body_def advanced_def prims)
  have getreq: "l_get_prop (layer (Suc (Suc (Suc n)))) ?W (Name ''request'') ?s1 =
      Return (Promise (nextId s)) (promisified r ?s1)"
    using req1 prom
    by (simp add: idbProxyTraps_get_def isIteratorProp_def isStoreLike_def advanceMethods_def)
  have again: "l_wrap (layer (Suc (Suc (Suc n)))) (Promise (nextId s)) (promisified r ?s1) =
      Return (Promise (nextId s)) (promisified r ?s1)"
    using nop types by (simp add: wrap_promise promisified_def advanced_def prims)
  show ?thesis
    using native getreq again by (simp add: call_body_def call_closure_def)
qed

lemma continue_wrapped_frame [simp]:
  "hobjs (continue_wrapped s) = hobjs s"
  "hqueue (continue_wrapped s) = hqueue s"
  "promises (continue_wrapped s) = promises s"
  "protoMembers (continue_wrapped s) = protoMembers s"
  "idbProxyableTypes (continue_wrapped s) = idbProxyableTypes s"
  "advanceResults (continue_wrapped s) = advanceResults s"
  "transformCache (continue_wrapped s) (Host k i) = transformCache s (Host k i)"
  "transformCache (continue_wrapped s) (Promise p) = transformCache s (Promise p)"
  "reverseTransformCache (continue_wrapped s) (Proxy i h v) = reverseTransformCache s (Proxy i h v)"
  by (simp_all add: continue_wrapped_def continue_fn_def split: option.splits)

lemma continue_wrapped_cache:
  assumes "transformCache s continue_fn = None \<or>
           (\<exists>a. transformCache s continue_fn = Some (Fn a (WrappedCursorFn continue_fn)))"
  shows "\<exists>a. continue_wrapper s = Fn a (WrappedCursorFn continue_fn) \<and>
             transformCache (continue_wrapped s) continue_fn = Some (Fn a (WrappedCursorFn continue_fn))"
  using assms by (auto simp add: continue_wrapper_def continue_wrapped_def)

lemma pass_step:
  assumes inv: "cursor_inv s c r j q x rest"
  shows "\<exists>s'. iterate_pass (layer (Suc (Suc (Suc (Suc n))))) (Suc e) []
                 (Proxy j IdbProxyTraps (Host IDBCursor c))
                 (Proxy q CursorIteratorTraps (Proxy j IdbProxyTraps (Host IDBCursor c))) s =
               Return (if rest = [] then Null else Proxy j IdbProxyTraps (Host IDBCursor c)) s' \<and>
             (rest \<noteq> [] \<longrightarrow> cursor_inv s' c r j q (hd rest) (tl rest))"
proof -
  let ?L = "layer (Suc (Suc (Suc (Suc n))))"
  let ?C = "Host IDBCursor c"
  let ?R = "Host IDBRequest r"
  let ?W = "Proxy j IdbProxyTraps ?C"
  let ?pc = "Proxy q CursorIteratorTraps ?W"
  let ?sw = "continue_wrapped s"
  let ?P = "nextId ?sw"
  let ?s3 = "promisified r (advanced c r rest ?sw)"
  let ?ok = "Fn ?P (ReqSuccess ?P ?R)"
  let ?ko = "Fn ?P (ReqError ?P ?R)"
  let ?ups = "snd (snd (next_event c r rest))"
  let ?t = "apply_updates ?ups ((observe [Promise ?P] ?s3)\<lparr>hqueue := []\<rparr>)"
  let ?v = "if rest = [] then Null else ?C"
  let ?w = "if rest = [] then Null else ?W"
  let ?s4 = "remove_listener r ''error'' ?ko (remove_listener r ''success'' ?ok (resolve ?P ?w ?t))"
  let ?s' = "?s4\<lparr>advanceResults := (advanceResults ?s4)(?pc := None)\<rparr>"
  note i = inv [unfolded cursor_inv_def]
  obtain a where wf: "continue_wrapper s = Fn a (WrappedCursorFn continue_fn)"
    and cached: "transformCache ?sw continue_fn = Some (Fn a (WrappedCursorFn continue_fn))"
    using continue_wrapped_cache i by blast
  have trap: "l_get_prop ?L ?W (Name ''continue'') s = Return (Fn a (WrappedCursorFn continue_fn)) ?sw"
    using i continue_trap [of s c "Suc (Suc n)" j] wf by simp
  have call: "l_call ?L (Fn a (WrappedCursorFn continue_fn)) ?W [] ?sw = Return (Promise ?P) ?s3"
  proof -
    have "call_body (layer (Suc (Suc (Suc n)))) (Fn a (WrappedCursorFn continue_fn)) ?W [] ?sw =
        Return (Promise (nextId ?sw)) (promisified r (advanced c r rest ?sw))"
      using i by (intro continue_call) (simp_all add: raw_get_def event_target_def)
    then show ?thesis by simp
  qed
  have intent: "advance_intent ?L ?W ?pc s = Return (Promise ?P) ?s3"
    using i trap call by (simp add: advance_intent_def wm_get_def call_method_def)
  have q0: "hqueue ?s3 = [(?R, ''success'', ?ups)]"
    using i by (simp add: promisified_def advanced_def next_event_def prims)
  have ls: "hlisteners (hobjs ?s3 r) = [(''success'', ?ok), (''error'', ?ko)]"
    using i by (simp add: promisified_def advanced_def prims listen_def)
  have pend: "promises ?s3 ?P = Pending"
    by (simp add: promisified_def advanced_def prims)
  have hp_r: "hprops (hobjs ?t r) = (Name ''result'', ?v) # hprops (hobjs s r)"
    using i by (cases rest) (simp_all add: next_event_def apply_updates_Cons promisified_def advanced_def
                  prims observe_def)
  have pm: "protoMembers ?t = protoMembers s"
    by (simp add: promisified_def advanced_def prims observe_def)
  have et: "event_target ?t IDBRequest r"
    using i hp_r pm by (simp add: event_target_def raw_get_def)
  have res: "raw_get ?t IDBRequest r (Name ''result'') = ?v"
    using hp_r by (simp add: raw_get_def)
  have tc: "transformCache ?t ?C = Some ?W" "idbProxyableTypes ?t = [IDBDatabase, IDBCursor, IDBTransaction]"
    using i by (simp_all add: promisified_def advanced_def prims observe_def)
  have w: "wrap (Suc (Suc (Suc n))) ?v ?t = Return ?w ?t"
    using tc by (cases rest) (simp_all add: wrap_Null wrap_cached)
  have plain: "\<And>p. ?w \<noteq> Promise p"
    by simp
  have aw: "await ?L (Suc e) (Promise ?P) ?s3 = Return ?w ?s4"
    using await_success [of ?s3 r ?ups ?P ?v "Suc (Suc n)" ?w ?t e, OF q0 ls pend et res w refl refl refl plain] by simp
  have pass: "iterate_pass ?L (Suc e) [] ?W ?pc s = Return ?w ?s'"
    using intent aw by (simp add: iterate_pass_def)
  have next_inv: "cursor_inv ?s' c r j q y ys" if "rest = y # ys" for y ys
    using i that cached
    by (simp add: cursor_inv_def next_event_def apply_updates_Cons promisified_def advanced_def prims
          observe_def event_target_def listen_def unlisten_def)
  show ?thesis
    using pass next_inv by (cases rest) auto
qed

lemma loop_all:
  assumes "cursor_inv s c r j q x rest" "length rest + 2 \<le> m"
  shows "\<exists>s'. iterate_loop (layer (Suc (Suc (Suc (Suc n))))) (Suc e) m []
                 (Proxy j IdbProxyTraps (Host IDBCursor c))
                 (Proxy q CursorIteratorTraps (Proxy j IdbProxyTraps (Host IDBCursor c))) s =
               Return (x # rest) s'"
  using assms
proof (induction rest arbitrary: s x m)
  case Nil
  let ?W = "Proxy j IdbProxyTraps (Host IDBCursor c)"
  let ?pc = "Proxy q CursorIteratorTraps ?W"
  obtain m' where m: "m = Suc (Suc m')"
    using Nil.prems(2) by (cases m; cases "m - 1") auto
  obtain s' where pass: "iterate_pass (layer (Suc (Suc (Suc (Suc n))))) (Suc e) [] ?W ?pc s = Return Null s'"
    using pass_step [OF Nil.prems(1), of n e] by auto
  have pos: "position ?pc s = x"
    using Nil.prems(1) by (simp add: cursor_inv_def position_def unwrap_def wm_get_def)
  show ?case
    using pass pos by (simp add: m)
next
  case (Cons y ys)
  let ?W = "Proxy j IdbProxyTraps (Host IDBCursor c)"
  let ?pc = "Proxy q CursorIteratorTraps ?W"
  obtain m' where m: "m = Suc m'" and m': "length ys + 2 \<le> m'"
    using Cons.prems(2) by (cases m) auto
  obtain s' where pass: "iterate_pass (layer (Suc (Suc (Suc (Suc n))))) (Suc e) [] ?W ?pc s = Return ?W s'"
    and inv': "cursor_inv s' c r j q y ys"
    using pass_step [OF Cons.prems(1), of n e] by auto
  obtain s'' where rest: "iterate_loop (layer (Suc (Suc (Suc (Suc n))))) (Suc e) m' [] ?W ?pc s' = Return (y # ys) s''"
    using Cons.IH [OF inv' m'] by blast
  have pos: "position ?pc s = x"
    using Cons.prems(1) by (simp add: cursor_inv_def position_def unwrap_def wm_get_def)
  show ?case
    using pass rest pos by (simp add: m)
qed

lemma open_trap:
  assumes "store_ready s k i j recs"
  shows "\<exists>a. get_prop_body (layer (Suc n)) (Proxy j IdbProxyTraps (Host k i)) (Name ''openCursor'') s =
           Return (Fn a (WrappedFn (Fn 0 (Native k ''openCursor'')))) (open_wrapped k s)"
proof -
  note r = assms [unfolded store_ready_def]
  have noiter: "\<not> isIteratorProp (Host k i) (Name ''openCursor'')"
    by (simp add: isIteratorProp_def)
  have kinds: "\<not> instanceof (Host k i) IDBDatabase" "\<not> instanceof (Host k i) IDBCursor"
    "\<not> instanceof (Host k i) IDBTransaction"
    using r by auto
  have trap: "get_prop_body (layer (Suc n)) (Proxy j IdbProxyTraps (Host k i)) (Name ''openCursor'') s =
      wrap_body (layer n) (Fn 0 (Native k ''openCursor'')) s"
    using r noiter kinds by (simp add: idbProxyTraps_get_def)
  from r have "(transformCache s (Fn 0 (Native k ''openCursor'')) = None \<and>
        Fn 0 (Native k ''openCursor'') \<notin> cursorFunctions s) \<or>
       (\<exists>a. transformCache s (Fn 0 (Native k ''openCursor'')) =
              Some (Fn a (WrappedFn (Fn 0 (Native k ''openCursor'')))))"
    by blast
  then show ?thesis
  proof
    assume "transformCache s (Fn 0 (Native k ''openCursor'')) = None \<and>
        Fn 0 (Native k ''openCursor'') \<notin> cursorFunctions s"
    then show ?thesis
      using trap by (simp add: wrap_function_new open_wrapped_def)
  next
    assume "\<exists>a. transformCache s (Fn 0 (Native k ''openCursor'')) =
              Some (Fn a (WrappedFn (Fn 0 (Native k ''openCursor''))))"
    then show ?thesis
      using trap by (auto simp add: wrap_cached open_wrapped_def)
  qed
qed

lemma open_wrapped_frame [simp]:
  "hobjs (open_wrapped k s) = hobjs s"
  "hqueue (open_wrapped k s) = hqueue s"
  "promises (open_wrapped k s) = promises s"
  "protoMembers (open_wrapped k s) = protoMembers s"
  "idbProxyableTypes (open_wrapped k s) = idbProxyableTypes s"
  "advanceResults (open_wrapped k s) = advanceResults s"
  "transformCache (open_wrapped k s) (Host k' i) = transformCache s (Host k' i)"
  "transformCache (open_wrapped k s) (Promise p) = transformCache s (Promise p)"
  "reverseTransformCache (open_wrapped k s) (Proxy i h v) = reverseTransformCache s (Proxy i h v)"
  "nextId s \<le> nextId (open_wrapped k s)"
  by (simp_all add: open_wrapped_def split: option.splits)

lemma open_wrapped_continue:
  "k \<noteq> IDBCursor \<Longrightarrow> transformCache (open_wrapped k s) continue_fn = transformCache s continue_fn"
  by (simp add: open_wrapped_def continue_fn_def split: option.splits)

lemma host_openCursor_opened:
  assumes "(\<exists>idx made. hdata (hobjs s i) = StoreData recs idx made) \<or> hdata (hobjs s i) = IndexData recs"
  shows "host_openCursor k i args s = Return (Host IDBRequest (nextId s)) (opened k i recs s)"
  using assms
  by (cases recs)
     (auto simp add: host_openCursor_def opened_def open_request_def open_event_def new_host_def enqueue_def)

lemma open_call:
  assumes ready: "store_ready s k i j recs"
  shows "\<exists>sw. call_method (layer (Suc (Suc (Suc (Suc n))))) (Proxy j IdbProxyTraps (Host k i)) ''openCursor'' args s =
           Return (Promise (nextId (opened k i recs sw))) (promisified (nextId sw) (opened k i recs sw)) \<and>
           sw = open_wrapped k s"
proof -
  let ?L = "layer (Suc (Suc (Suc (Suc n))))"
  let ?W = "Proxy j IdbProxyTraps (Host k i)"
  let ?f = "Fn 0 (Native k ''openCursor'')"
  let ?sw = "open_wrapped k s"
  let ?r = "nextId ?sw"
  let ?sh = "opened k i recs ?sw"
  note r = ready [unfolded store_ready_def]
  obtain a where trap: "l_get_prop ?L ?W (Name ''openCursor'') s = Return (Fn a (WrappedFn ?f)) ?sw"
    using open_trap [OF ready, of "Suc (Suc n)"] by auto
  have data: "(\<exists>idx made. hdata (hobjs ?sw i) = StoreData recs idx made) \<or> hdata (hobjs ?sw i) = IndexData recs"
    using r by simp
  have un: "unwrap ?W ?sw = Host k i"
    using r by (simp add: unwrap_def wm_get_def)
  have k: "k = IDBObjectStore \<or> k = IDBIndex"
    using r by blast
  have native: "l_call (layer (Suc (Suc (Suc n)))) ?f (Host k i) args ?sw = Return (Host IDBRequest ?r) ?sh"
    using k host_openCursor_opened [OF data, of k args] by (auto simp add: host_call_def)
  have et: "event_target ?sh IDBRequest ?r"
    using r by (cases recs) (simp_all add: event_target_def raw_get_def opened_def open_request_def)
  have prom: "l_wrap (layer (Suc (Suc (Suc n)))) (Host IDBRequest ?r) ?sh =
      Return (Promise (nextId ?sh)) (promisified ?r ?sh)"
    using promisifyRequest_host1 [OF et, of "Suc n"] by (simp add: wrap_body_def)
  have "l_call ?L (Fn a (WrappedFn ?f)) ?W args ?sw = Return (Promise (nextId ?sh)) (promisified ?r ?sh)"
    using un native prom by (simp add: call_body_def call_closure_def)
  then show ?thesis
    using trap by (simp add: call_method_def)
qed

lemma open_step:
  assumes ready: "store_ready s k i j recs"
  shows "\<exists>s1 c r jw. iterate_open (layer (Suc (Suc (Suc (Suc n))))) (Suc e) (Proxy j IdbProxyTraps (Host k i)) args s =
           Return (if recs = [] then Null else Proxy jw IdbProxyTraps (Host IDBCursor c)) s1 \<and>
           (recs \<noteq> [] \<longrightarrow>
              cursor_inv (register_proxy (Proxy jw IdbProxyTraps (Host IDBCursor c)) s1) c r jw (nextId s1)
                (hd recs) (tl recs))"
proof -
  let ?L = "layer (Suc (Suc (Suc (Suc n))))"
  let ?S = "Proxy j IdbProxyTraps (Host k i)"
  let ?sw = "open_wrapped k s"
  let ?r = "nextId ?sw"
  let ?R = "Host IDBRequest ?r"
  let ?C = "Host IDBCursor (Suc ?r)"
  let ?sh = "opened k i recs ?sw"
  let ?P = "nextId ?sh"
  let ?s3 = "promisified ?r ?sh"
  let ?ok = "Fn ?P (ReqSuccess ?P ?R)"
  let ?ko = "Fn ?P (ReqError ?P ?R)"
  let ?ups = "snd (snd (open_event ?r recs))"
  let ?t = "apply_updates ?ups ((observe [Promise ?P] ?s3)\<lparr>hqueue := []\<rparr>)"
  let ?W = "Proxy (nextId ?t) IdbProxyTraps ?C"
  let ?v = "if recs = [] then Null else ?C"
  let ?w = "if recs = [] then Null else ?W"
  let ?t' = "if recs = [] then ?t
             else ?t\<lparr>nextId := Suc (nextId ?t), transformCache := (transformCache ?t)(?C \<mapsto> ?W),
                      reverseTransformCache := (reverseTransformCache ?t)(?W \<mapsto> ?C)\<rparr>"
  let ?s1 = "remove_listener ?r ''error'' ?ko (remove_listener ?r ''success'' ?ok (resolve ?P ?w ?t'))"
  note r = ready [unfolded store_ready_def]
  have k: "k \<noteq> IDBCursor"
    using r by auto
  have fresh: "nextId s \<le> ?r"
    by simp
  have call: "call_method ?L ?S ''openCursor'' args s = Return (Promise ?P) ?s3"
    using open_call [OF ready, of n args] by simp
  have q0: "hqueue ?s3 = [(?R, ''success'', ?ups)]"
    using r by (cases recs) (simp_all add: promisified_def opened_def open_event_def)
  have ls: "hlisteners (hobjs ?s3 ?r) = [(''success'', ?ok), (''error'', ?ko)]"
    by (cases recs) (simp_all add: promisified_def opened_def open_request_def listen_def)
  have pend: "promises ?s3 ?P = Pending"
    by (simp add: promisified_def)
  have hp_r: "hprops (hobjs ?t ?r) = (Name ''result'', ?v) # hprops (open_request k i)"
    by (cases recs) (simp_all add: open_event_def apply_updates_Cons promisified_def opened_def
                  prims observe_def set_hprop_def)
  have pm: "protoMembers ?t = protoMembers s"
    by (cases recs) (simp_all add: promisified_def opened_def observe_def)
  have et: "event_target ?t IDBRequest ?r"
    using r hp_r pm by (simp add: event_target_def raw_get_def open_request_def)
  have res: "raw_get ?t IDBRequest ?r (Name ''result'') = ?v"
    using hp_r by (simp add: raw_get_def)
  have types: "idbProxyableTypes ?t = [IDBDatabase, IDBCursor, IDBTransaction]"
    using r by (cases recs) (simp_all add: promisified_def opened_def observe_def)
  have "\<forall>k' i'. nextId s \<le> i' \<longrightarrow> transformCache s (Host k' i') = None"
    using r by blast
  moreover have "nextId s \<le> Suc ?r"
    using fresh by (rule le_SucI)
  ultimately have tc0: "transformCache s ?C = None"
    by blast
  have nocache: "transformCache ?t ?C = None"
    using tc0 by (cases recs) (simp_all add: promisified_def opened_def observe_def)
  have w: "wrap (Suc (Suc (Suc n))) ?v ?t = Return ?w ?t'"
    using types nocache
    by (cases recs) (simp_all add: wrap_Null wrap_plain wm_has_def isProxyable_ready isStoreLike_def)
  have fr: "hobjs ?t' = hobjs ?t" "protoMembers ?t' = protoMembers ?t" "promises ?t' = promises ?t"
    by simp_all
  have plain: "\<And>p. ?w \<noteq> Promise p"
    by simp
  have aw: "await ?L (Suc e) (Promise ?P) ?s3 = Return ?w ?s1"
    using await_success [of ?s3 ?r ?ups ?P ?v "Suc (Suc n)" ?w ?t' e, OF q0 ls pend et res w fr plain] by simp
  have opened: "iterate_open ?L (Suc e) ?S args s = Return ?w ?s1"
    using k call aw by (simp add: iterate_open_def)
  have cont: "transformCache ?sw continue_fn = None \<or>
       (\<exists>a. transformCache ?sw continue_fn = Some (Fn a (WrappedCursorFn continue_fn)))"
    using r k by (simp add: open_wrapped_continue)
  have "\<forall>i' h v. nextId s \<le> i' \<longrightarrow> advanceResults s (Proxy i' h v) = None"
    using r by blast
  moreover have "nextId s \<le> Suc (Suc (Suc (Suc ?r)))"
    using fresh by (intro le_SucI)
  ultimately have slot: "advanceResults s (Proxy (Suc (Suc (Suc (Suc ?r)))) CursorIteratorTraps v) = None" for v
    by blast
  have inv: "cursor_inv (register_proxy ?W ?s1) (Suc ?r) ?r (nextId ?t) (nextId ?s1) x xs" if "recs = x # xs" for x xs
    using r that cont slot
    by (simp add: cursor_inv_def register_proxy_def iteration_proxy_def open_event_def apply_updates_Cons
          promisified_def opened_def open_request_def prims observe_def event_target_def listen_def
          unlisten_def set_hprop_def unwrap_def wm_get_def continue_fn_def)
  show ?thesis
    using opened inv by (cases recs) auto
qed

text \<open>
  C2. A wrapped store or index holding the records \<open>recs\<close> is iterated by a consumer that
  never calls an advancing method. The generator returns, and the positions it yielded are
  exactly \<open>recs\<close>, in the order of the host: one position for each record, then the end.
  With no record the cursor \<^verbatim>\<open>openCursor\<close> resolves to is \<^verbatim>\<open>null\<close> and nothing is yielded.
  The bound \<open>m\<close> on the passes only has to exceed the number of records.
\<close>

theorem iterate_yields_every_record:
  assumes ready: "store_ready s k i j recs"
      and passes: "length recs < m"
  shows "answer (iterate (layer (Suc (Suc (Suc (Suc n))))) (Suc e) m [] (Proxy j IdbProxyTraps (Host k i)) args s) =
           Returned recs"
proof -
  let ?L = "layer (Suc (Suc (Suc (Suc n))))"
  let ?S = "Proxy j IdbProxyTraps (Host k i)"
  obtain s1 c r jw where
    opened: "iterate_open ?L (Suc e) ?S args s =
               Return (if recs = [] then Null else Proxy jw IdbProxyTraps (Host IDBCursor c)) s1"
    and inv: "recs \<noteq> [] \<longrightarrow>
               cursor_inv (register_proxy (Proxy jw IdbProxyTraps (Host IDBCursor c)) s1) c r jw (nextId s1)
                 (hd recs) (tl recs)"
    using open_step [OF ready, of n e args] by blast
  show ?thesis
  proof (cases recs)
    case Nil
    then show ?thesis
      using opened by (simp add: iterate_def)
  next
    case (Cons x xs)
    let ?W = "Proxy jw IdbProxyTraps (Host IDBCursor c)"
    have inv': "cursor_inv (register_proxy ?W s1) c r jw (nextId s1) x xs"
      using inv Cons by simp
    have fuel: "length xs + 2 \<le> m"
      using passes Cons by simp
    obtain s' where "iterate_loop ?L (Suc e) m [] ?W (Proxy (nextId s1) CursorIteratorTraps ?W)
        (register_proxy ?W s1) = Return (x # xs) s'"
      using loop_all [OF inv' fuel, of n e] by blast
    then show ?thesis
      using opened Cons by (simp add: iterate_def iteration_proxy_def)
  qed
qed

theorem iterate_yields_every_record_witness:
  "store_ready (final demo_store demo) IDBObjectStore 9 10 [JNum 10, JNum 20, JNum 30] \<and>
   length [JNum 10, JNum 20, JNum 30] < (4 :: nat) \<and>
   answer (iterate (layer deep) (Suc 0) 4 [] (Proxy 10 IdbProxyTraps (Host IDBObjectStore 9)) []
             (final demo_store demo)) =
     Returned [JNum 10, JNum 20, JNum 30]"
proof -
  have h: "store_ready (final demo_store demo) IDBObjectStore 9 10 [JNum 10, JNum 20, JNum 30]"
    by (simp add: store_ready_def continue_fn_def run_defs)
  show ?thesis
    using h iterate_yields_every_record [OF h, of 4 "Suc (Suc (Suc (Suc 0)))" 0 "[]"]
    by (simp add: deep_def)
qed

end
